theory Spec2Isabelle
  imports Complex_Main "HOL-Library.Word" "HOL-Library.Monad_Syntax"
begin

section \<open>Numbers\<close>

text \<open>
  A C double is a finite real, one of the two infinities, or a NaN.  The arithmetic is
  the IEEE one on the special values.  An operation on finite values gives its exact
  value as long as the magnitude of that value is below \<open>2^1024 - 2^970\<close>, the least
  magnitude that a double rounds to infinity, and the infinity of its sign from there on:
  overflow is modelled, rounding and the sign of zero are not (a finite value divided by
  zero takes the sign of the numerator).  R's missing value \<open>NA_REAL\<close> is a NaN.
\<close>

datatype double = Fin real | PInf | NInf | NaN

fun is_finite :: "double \<Rightarrow> bool" where
  "is_finite (Fin a) = True"
| "is_finite PInf = False"
| "is_finite NInf = False"
| "is_finite NaN = False"

definition overflow_threshold :: real where
  "overflow_threshold =
     179769313486231580793728971405303415079934132710037826936173778980444968292764750946649017977587207096330286416692887910946555547851940402630657488671505820681908902000708383676273854845817711531764475730270069855571366959622842914819860834936475292719074168444365510704342711559699508093042880177904174497792"

definition of_exact :: "real \<Rightarrow> double" where
  "of_exact x = (if \<bar>x\<bar> < overflow_threshold then Fin x else if 0 < x then PInf else NInf)"

fun dsign :: "double \<Rightarrow> real" where
  "dsign (Fin a) = sgn a"
| "dsign PInf = 1"
| "dsign NInf = - 1"
| "dsign NaN = 0"

fun dneg :: "double \<Rightarrow> double" where
  "dneg (Fin a) = Fin (- a)"
| "dneg PInf = NInf"
| "dneg NInf = PInf"
| "dneg NaN = NaN"

fun dadd :: "double \<Rightarrow> double \<Rightarrow> double" where
  "dadd (Fin a) (Fin b) = of_exact (a + b)"
| "dadd NaN y = NaN"
| "dadd x NaN = NaN"
| "dadd PInf NInf = NaN"
| "dadd NInf PInf = NaN"
| "dadd PInf y = PInf"
| "dadd NInf y = NInf"
| "dadd (Fin a) y = y"

fun dmul :: "double \<Rightarrow> double \<Rightarrow> double" where
  "dmul (Fin a) (Fin b) = of_exact (a * b)"
| "dmul NaN y = NaN"
| "dmul x NaN = NaN"
| "dmul x y = (if dsign x * dsign y = 0 then NaN
               else if 0 < dsign x * dsign y then PInf else NInf)"

fun ddiv :: "double \<Rightarrow> double \<Rightarrow> double" where
  "ddiv NaN y = NaN"
| "ddiv x NaN = NaN"
| "ddiv (Fin a) (Fin b) =
     (if b \<noteq> 0 then of_exact (a / b)
      else if a = 0 then NaN else if 0 < a then PInf else NInf)"
| "ddiv (Fin a) y = Fin 0"
| "ddiv x (Fin b) = (if 0 \<le> b then x else dneg x)"
| "ddiv x y = NaN"

fun dlog :: "double \<Rightarrow> double" where
  "dlog (Fin a) = (if 0 < a then Fin (ln a) else if a = 0 then NInf else NaN)"
| "dlog PInf = PInf"
| "dlog NInf = NaN"
| "dlog NaN = NaN"

instantiation double :: "{zero, plus, minus, times, inverse}"
begin

definition zero_double :: double where
  "zero_double = Fin 0"

definition plus_double :: "double \<Rightarrow> double \<Rightarrow> double" where
  "plus_double x y = dadd x y"

definition minus_double :: "double \<Rightarrow> double \<Rightarrow> double" where
  "minus_double x y = dadd x (dneg y)"

definition times_double :: "double \<Rightarrow> double \<Rightarrow> double" where
  "times_double x y = dmul x y"

definition divide_double :: "double \<Rightarrow> double \<Rightarrow> double" where
  "divide_double x y = ddiv x y"

definition inverse_double :: "double \<Rightarrow> double" where
  "inverse_double x = ddiv (Fin 1) x"

instance ..

end

definition NA_REAL :: double where
  "NA_REAL = NaN"

text \<open>
  Armadillo's \<open>uword\<close> and C's \<open>unsigned int\<close> are 32-bit words (RcppArmadillo's
  32-bit word configuration); their arithmetic wraps around.  Row counts and loop counters
  are natural numbers: the model is for matrices of fewer than \<open>2^31\<close> rows.
\<close>

type_synonym uword = "32 word"

section \<open>Armadillo matrices and vectors\<close>

text \<open>
  An \<open>arma::mat\<close> holds its elements in column-major order: element \<open>(r, c)\<close> is at
  position \<open>r + c * n_rows\<close> of \<open>mem\<close>.  An \<open>arma::vec\<close> is the list of its
  elements, an \<open>arma::uvec\<close> a list of words.  Every access that Armadillo checks
  (an index out of bounds, incompatible dimensions, the maximum of an empty vector)
  throws there and is \<open>None\<close> here.
\<close>

record mat =
  n_rows :: nat
  n_cols :: nat
  mem :: "double list"

definition n_elem :: "mat \<Rightarrow> nat" where
  "n_elem M = n_rows M * n_cols M"

definition wf_mat :: "mat \<Rightarrow> bool" where
  "wf_mat M \<longleftrightarrow> length (mem M) = n_rows M * n_cols M"

definition row_of :: "mat \<Rightarrow> nat \<Rightarrow> double list" where
  "row_of M r = map (\<lambda>c. mem M ! (r + c * n_rows M)) [0..<n_cols M]"

definition mat_row :: "mat \<Rightarrow> nat \<Rightarrow> double list option" where
  "mat_row M r = (if r < n_rows M then Some (row_of M r) else None)"

definition mat_elem :: "mat \<Rightarrow> uword list \<Rightarrow> double list option" where
  "mat_elem M idx =
     (if list_all (\<lambda>j. unat j < n_elem M) idx then Some (map (\<lambda>j. mem M ! unat j) idx)
      else None)"

definition vec_at :: "double list \<Rightarrow> nat \<Rightarrow> double option" where
  "vec_at v t = (if t < length v then Some (v ! t) else None)"

definition vec_set :: "double list \<Rightarrow> nat \<Rightarrow> double \<Rightarrow> double list option" where
  "vec_set v t x = (if t < length v then Some (v[t := x]) else None)"

definition dot :: "double list \<Rightarrow> double list \<Rightarrow> double" where
  "dot a b = foldl (+) 0 (map2 (*) a b)"

definition row_times_col :: "double list \<Rightarrow> double list \<Rightarrow> double option" where
  "row_times_col r c = (if length r = length c then Some (dot r c) else None)"

definition mat_vec :: "mat \<Rightarrow> double list \<Rightarrow> double list" where
  "mat_vec A x = map (\<lambda>r. dot (row_of A r) x) [0..<n_rows A]"

definition mat_times_col :: "mat \<Rightarrow> double list \<Rightarrow> double list option" where
  "mat_times_col A x = (if n_cols A = length x then Some (mat_vec A x) else None)"

definition vec_div :: "double list \<Rightarrow> double list \<Rightarrow> double list option" where
  "vec_div a b = (if length a = length b then Some (map2 (/) a b) else None)"

definition vec_add :: "double list \<Rightarrow> double list \<Rightarrow> double list option" where
  "vec_add a b = (if length a = length b then Some (map2 (+) a b) else None)"

definition vec_sub :: "double list \<Rightarrow> double list \<Rightarrow> double list option" where
  "vec_sub a b = (if length a = length b then Some (map2 (-) a b) else None)"

definition vec_scale :: "double list \<Rightarrow> double \<Rightarrow> double list" where
  "vec_scale a e = map (\<lambda>z. z * e) a"

definition put_row :: "mat \<Rightarrow> nat \<Rightarrow> double list \<Rightarrow> mat" where
  "put_row M i r =
     M\<lparr>mem := map (\<lambda>j. if j mod n_rows M = i then r ! (j div n_rows M) else mem M ! j)
               [0..<n_elem M]\<rparr>"

definition set_row :: "mat \<Rightarrow> nat \<Rightarrow> double list \<Rightarrow> mat option" where
  "set_row M i r = (if i < n_rows M \<and> length r = n_cols M then Some (put_row M i r) else None)"

definition find_nonfinite :: "mat \<Rightarrow> uword list" where
  "find_nonfinite M = map of_nat (filter (\<lambda>j. \<not> is_finite (mem M ! j)) [0..<n_elem M])"

definition elem_assign :: "mat \<Rightarrow> uword list \<Rightarrow> double list \<Rightarrow> mat option" where
  "elem_assign M idx vals =
     (if length idx = length vals \<and> list_all (\<lambda>j. unat j < n_elem M) idx
      then Some (M\<lparr>mem := fold (\<lambda>(j, x) m. m[unat j := x]) (zip idx vals) (mem M)\<rparr>)
      else None)"

fun max_uvec :: "uword list \<Rightarrow> uword option" where
  "max_uvec [] = None"
| "max_uvec (l # ls) = Some (fold max ls l)"

text \<open>
  \<open>matrixxt.elem(find_nonfinite(matrixxt)) = matrixxt.elem(find_nonfinite(matrixxt) - 1)\<close>
  and the same with \<open>+ 1\<close>.  Source and target are the same matrix, so Armadillo copies
  the values read before it writes any of them.
\<close>

definition subst_nonfinite :: "uword \<Rightarrow> mat \<Rightarrow> mat option" where
  "subst_nonfinite d M = do {
     vals \<leftarrow> mat_elem M (map (\<lambda>j. j + d) (find_nonfinite M));
     elem_assign M (find_nonfinite M) vals
   }"

definition subst_prev :: "mat \<Rightarrow> mat option" where
  "subst_prev M = subst_nonfinite (- 1) M"

definition subst_next :: "mat \<Rightarrow> mat option" where
  "subst_next M = subst_nonfinite 1 M"

text \<open>A \<open>for\<close> loop over the listed values of its counter; an exception ends it.\<close>

fun for_each :: "nat list \<Rightarrow> (nat \<Rightarrow> 's \<Rightarrow> 's option) \<Rightarrow> 's \<Rightarrow> 's option" where
  "for_each [] body s = Some s"
| "for_each (i # js) body s = body i s \<bind> for_each js body"

section \<open>The recursive filter\<close>

text \<open>The \<open>List\<close> that \<open>ssfitter\<close> and \<open>ssfitterbackcast\<close> return.\<close>

record fitting =
  fit_matxt :: mat
  fit_yfit :: "double list"
  fit_errors :: "double list"
  fit_xtreg :: mat

text \<open>The variables the loops write: \<open>matrixxt\<close>, \<open>matyfit\<close> and \<open>materrors\<close>.\<close>

record fstate =
  xt :: mat
  fitv :: "double list"
  errv :: "double list"

text \<open>
  \<open>lags = maxlag - lags\<close>, then \<open>lags(i) = lags(i) + rows * i\<close> for \<open>i\<close> from 1, and
  in the loops \<open>lagrows = lags - maxlag + i\<close>.
\<close>

definition reverse_lags :: "uword \<Rightarrow> uword list \<Rightarrow> uword list" where
  "reverse_lags maxlag lags = map (\<lambda>l. maxlag - l) lags"

definition add_offsets :: "nat \<Rightarrow> uword list \<Rightarrow> uword list" where
  "add_offsets rows lags =
     map (\<lambda>k. if 1 \<le> k then lags ! k + of_nat (rows * k) else lags ! k) [0..<length lags]"

definition offset_lags :: "nat \<Rightarrow> uword \<Rightarrow> uword list \<Rightarrow> uword list" where
  "offset_lags rows maxlag lags = add_offsets rows (reverse_lags maxlag lags)"

definition lagrows_at :: "uword list \<Rightarrow> uword \<Rightarrow> nat \<Rightarrow> uword list" where
  "lagrows_at lags maxlag i = map (\<lambda>l. l - maxlag + of_nat i) lags"

text \<open>
  The value and residual of period \<open>t\<close> from the gathered state \<open>x\<close>
  (the two statements on \<open>matyfit\<close> and \<open>materrors\<close>).
\<close>

definition measure_step ::
  "mat \<Rightarrow> double list \<Rightarrow> mat \<Rightarrow> mat \<Rightarrow> nat \<Rightarrow> double list \<Rightarrow> fstate \<Rightarrow> fstate option" where
  "measure_step matrixw matyt wex xtreg t x s = do {
     wrow \<leftarrow> mat_row matrixw t;
     a \<leftarrow> row_times_col wrow x;
     wexrow \<leftarrow> mat_row wex t;
     xtregrow \<leftarrow> mat_row xtreg t;
     b \<leftarrow> row_times_col wexrow xtregrow;
     fitv' \<leftarrow> vec_set (fitv s) t (a + b);
     y \<leftarrow> vec_at matyt t;
     f \<leftarrow> vec_at fitv' t;
     errv' \<leftarrow> vec_set (errv s) t (y - f);
     Some (s\<lparr>fitv := fitv', errv := errv'\<rparr>)
   }"

text \<open>The row \<open>matrixF * x + matg / trans(matrixv.row(t)) * e\<close>.\<close>

definition transition_row ::
  "mat \<Rightarrow> mat \<Rightarrow> double list \<Rightarrow> nat \<Rightarrow> double list \<Rightarrow> double \<Rightarrow> double list option" where
  "transition_row matrixF matrixv matg t x e = do {
     fx \<leftarrow> mat_times_col matrixF x;
     vrow \<leftarrow> mat_row matrixv t;
     gv \<leftarrow> vec_div matg vrow;
     vec_add fx (vec_scale gv e)
   }"

definition filter_step ::
  "uword \<Rightarrow> mat \<Rightarrow> mat \<Rightarrow> mat \<Rightarrow> mat \<Rightarrow> mat \<Rightarrow> double list \<Rightarrow> double list \<Rightarrow>
   uword list \<Rightarrow> nat \<Rightarrow> nat \<Rightarrow> fstate \<Rightarrow> fstate option" where
  "filter_step d matrixF matrixw matrixv wex xtreg matyt matg lagrows t i s = do {
     x \<leftarrow> mat_elem (xt s) lagrows;
     s1 \<leftarrow> measure_step matrixw matyt wex xtreg t x s;
     e \<leftarrow> vec_at (errv s1) t;
     r \<leftarrow> transition_row matrixF matrixv matg t x e;
     m1 \<leftarrow> set_row (xt s1) i r;
     m2 \<leftarrow> subst_nonfinite d m1;
     Some (s1\<lparr>xt := m2\<rparr>)
   }"

definition ssfitter_body ::
  "mat \<Rightarrow> mat \<Rightarrow> mat \<Rightarrow> double list \<Rightarrow> double list \<Rightarrow> uword list \<Rightarrow> uword \<Rightarrow> mat \<Rightarrow> mat \<Rightarrow>
   nat \<Rightarrow> fstate \<Rightarrow> fstate option" where
  "ssfitter_body matrixF matrixw matrixv matyt matg lags maxlag wex xtreg i s =
     filter_step (- 1) matrixF matrixw matrixv wex xtreg matyt matg
       (lagrows_at lags maxlag i) (i - unat maxlag) i s"

text \<open>The state of the loop of \<open>ssfitter\<close> when its counter has run from \<open>maxlag\<close> up to \<open>n\<close>.\<close>

definition ssfitter_loop ::
  "mat \<Rightarrow> mat \<Rightarrow> mat \<Rightarrow> mat \<Rightarrow> double list \<Rightarrow> double list \<Rightarrow> uword list \<Rightarrow> mat \<Rightarrow> mat \<Rightarrow>
   nat \<Rightarrow> fstate option" where
  "ssfitter_loop matrixxt matrixF matrixw matrixv matyt matg lags wex xtreg n = do {
     maxlag \<leftarrow> max_uvec lags;
     for_each [unat maxlag..<n]
       (ssfitter_body matrixF matrixw matrixv matyt matg
          (offset_lags (n_rows matrixxt) maxlag lags) maxlag wex xtreg)
       \<lparr>xt = matrixxt, fitv = replicate (length matyt) 0, errv = replicate (length matyt) 0\<rparr>
   }"

definition ssfitter ::
  "mat \<Rightarrow> mat \<Rightarrow> mat \<Rightarrow> mat \<Rightarrow> double list \<Rightarrow> double list \<Rightarrow> uword list \<Rightarrow> mat \<Rightarrow> mat \<Rightarrow>
   fitting option" where
  "ssfitter matrixxt matrixF matrixw matrixv matyt matg lags wex xtreg = do {
     s \<leftarrow> ssfitter_loop matrixxt matrixF matrixw matrixv matyt matg lags wex xtreg
            (n_rows matrixxt);
     Some \<lparr>fit_matxt = xt s, fit_yfit = fitv s, fit_errors = errv s, fit_xtreg = xtreg\<rparr>
   }"

section \<open>The backcast initializer\<close>

text \<open>
  \<open>resize\<close> keeps the elements at their rows and columns and fills the new ones with
  zeros.  \<open>set_size\<close> does not preserve the data: Armadillo keeps the memory as it is
  when the number of elements does not grow, so that the new matrix reads the first
  elements of the old column-major memory, except when the new matrix fits the
  16 preallocated elements and the old one did not; the matrix then uses memory
  whose contents are not initialised, here the values \<open>uninit\<close>.
\<close>

definition resize :: "mat \<Rightarrow> nat \<Rightarrow> nat \<Rightarrow> mat" where
  "resize M r c =
     \<lparr>n_rows = r, n_cols = c,
      mem = map (\<lambda>j. if j mod r < n_rows M \<and> j div r < n_cols M
                      then mem M ! (j mod r + (j div r) * n_rows M) else 0) [0..<r * c]\<rparr>"

definition set_size :: "(nat \<Rightarrow> double) \<Rightarrow> mat \<Rightarrow> nat \<Rightarrow> nat \<Rightarrow> mat" where
  "set_size uninit M r c =
     \<lparr>n_rows = r, n_cols = c,
      mem = (if r * c \<le> n_elem M \<and> (n_elem M \<le> 16 \<or> 16 < r * c) then take (r * c) (mem M)
             else map uninit [0..<r * c])\<rparr>"

definition backlags_of :: "nat \<Rightarrow> uword list \<Rightarrow> uword list" where
  "backlags_of obsallnew lags = map (\<lambda>k. of_nat (obsallnew * (k + 1)) - lags ! k) [0..<length lags]"

definition backlagrows_at :: "uword list \<Rightarrow> nat \<Rightarrow> nat \<Rightarrow> uword list" where
  "backlagrows_at backlags obsall i = map (\<lambda>l. l + of_nat i - of_nat obsall) backlags"

text \<open>The loops that only propagate: \<open>matrixxt.row(i) = trans(matrixF * matrixxt(lagrows))\<close>.\<close>

definition propagate_step :: "uword \<Rightarrow> mat \<Rightarrow> uword list \<Rightarrow> nat \<Rightarrow> fstate \<Rightarrow> fstate option" where
  "propagate_step d matrixF lagrows i s = do {
     x \<leftarrow> mat_elem (xt s) lagrows;
     fx \<leftarrow> mat_times_col matrixF x;
     m1 \<leftarrow> set_row (xt s) i fx;
     m2 \<leftarrow> subst_nonfinite d m1;
     Some (s\<lparr>xt := m2\<rparr>)
   }"

definition forward_pass ::
  "mat \<Rightarrow> mat \<Rightarrow> mat \<Rightarrow> double list \<Rightarrow> double list \<Rightarrow> uword list \<Rightarrow> uword \<Rightarrow> mat \<Rightarrow> mat \<Rightarrow>
   nat \<Rightarrow> fstate \<Rightarrow> fstate option" where
  "forward_pass matrixF matrixw matrixv matyt matg lags maxlag wex xtreg obsall s = do {
     s1 \<leftarrow> for_each [unat maxlag..<obsall]
             (ssfitter_body matrixF matrixw matrixv matyt matg lags maxlag wex xtreg) s;
     for_each [obsall..<obsall + unat maxlag]
       (\<lambda>i. propagate_step (- 1) matrixF (lagrows_at lags maxlag i) i) s1
   }"

text \<open>
  The counter of the first backward loop is compared with \<open>maxlag\<close> as an unsigned
  number: when \<open>obsall\<close> or \<open>maxlag\<close> is 0 the loop reaches the counter \<open>-1\<close>,
  whose row \<open>matrixw.row(i-maxlag)\<close> does not exist.
\<close>

definition backward_pass ::
  "mat \<Rightarrow> mat \<Rightarrow> mat \<Rightarrow> double list \<Rightarrow> double list \<Rightarrow> uword list \<Rightarrow> uword \<Rightarrow> mat \<Rightarrow> mat \<Rightarrow>
   nat \<Rightarrow> fstate \<Rightarrow> fstate option" where
  "backward_pass matrixF matrixw matrixv matyt matg backlags maxlag wex xtreg obsall s =
     (if obsall = 0 \<or> maxlag = 0 then None
      else do {
        s1 \<leftarrow> for_each (rev [unat maxlag..<obsall])
                (\<lambda>i. filter_step 1 matrixF matrixw matrixv wex xtreg matyt matg
                        (backlagrows_at backlags obsall i) (i - unat maxlag) i) s;
        for_each (rev [0..<unat maxlag])
          (\<lambda>i. propagate_step 1 matrixF (backlagrows_at backlags obsall i) i) s1
      })"

definition backcast_cycle ::
  "mat \<Rightarrow> mat \<Rightarrow> mat \<Rightarrow> double list \<Rightarrow> double list \<Rightarrow> uword list \<Rightarrow> uword list \<Rightarrow> uword \<Rightarrow>
   mat \<Rightarrow> mat \<Rightarrow> nat \<Rightarrow> nat \<Rightarrow> fstate \<Rightarrow> fstate option" where
  "backcast_cycle matrixF matrixw matrixv matyt matg lags backlags maxlag wex xtreg obsall j s = do {
     s1 \<leftarrow> forward_pass matrixF matrixw matrixv matyt matg lags maxlag wex xtreg obsall s;
     if j < 3
     then backward_pass matrixF matrixw matrixv matyt matg backlags maxlag wex xtreg obsall s1
     else Some s1
   }"

text \<open>The state when the four cycles are done, before the last \<open>set_size\<close>.\<close>

definition backcast_cycles ::
  "mat \<Rightarrow> mat \<Rightarrow> mat \<Rightarrow> mat \<Rightarrow> double list \<Rightarrow> double list \<Rightarrow> uword list \<Rightarrow> mat \<Rightarrow> mat \<Rightarrow>
   fstate option" where
  "backcast_cycles matrixxt matrixF matrixw matrixv matyt matg lags wex xtreg = do {
     maxlag \<leftarrow> max_uvec lags;
     let obsall = n_rows matrixxt;
     let obsallnew = obsall + unat maxlag;
     let lags1 = reverse_lags maxlag lags;
     for_each [0..<4]
       (backcast_cycle matrixF matrixw matrixv matyt matg (add_offsets obsallnew lags1)
          (backlags_of obsallnew lags1) maxlag wex xtreg obsall)
       \<lparr>xt = resize matrixxt obsallnew (n_cols matrixxt),
        fitv = replicate (length matyt) 0, errv = replicate (length matyt) 0\<rparr>
   }"

definition ssfitterbackcast ::
  "(nat \<Rightarrow> double) \<Rightarrow> mat \<Rightarrow> mat \<Rightarrow> mat \<Rightarrow> mat \<Rightarrow> double list \<Rightarrow> double list \<Rightarrow> uword list \<Rightarrow>
   mat \<Rightarrow> mat \<Rightarrow> fitting option" where
  "ssfitterbackcast uninit matrixxt matrixF matrixw matrixv matyt matg lags wex xtreg = do {
     s \<leftarrow> backcast_cycles matrixxt matrixF matrixw matrixv matyt matg lags wex xtreg;
     Some \<lparr>fit_matxt = set_size uninit (xt s) (n_rows matrixxt) (n_cols (xt s)),
           fit_yfit = fitv s, fit_errors = errv s, fit_xtreg = xtreg\<rparr>
   }"

section \<open>The forecaster and the rolling-origin errors\<close>

definition filled :: "nat \<Rightarrow> nat \<Rightarrow> double \<Rightarrow> mat" where
  "filled r c x = \<lparr>n_rows = r, n_cols = c, mem = replicate (r * c) x\<rparr>"

definition row_mat :: "double list \<Rightarrow> mat" where
  "row_mat v = \<lparr>n_rows = 1, n_cols = length v, mem = v\<rparr>"

definition block :: "mat \<Rightarrow> nat \<Rightarrow> nat \<Rightarrow> nat \<Rightarrow> nat \<Rightarrow> mat" where
  "block M r1 c1 nr nc =
     \<lparr>n_rows = nr, n_cols = nc,
      mem = map (\<lambda>j. mem M ! ((r1 + j mod nr) + (c1 + j div nr) * n_rows M)) [0..<nr * nc]\<rparr>"

definition submat :: "mat \<Rightarrow> uword \<Rightarrow> uword \<Rightarrow> uword \<Rightarrow> uword \<Rightarrow> mat option" where
  "submat M r1 c1 r2 c2 =
     (if r1 \<le> r2 \<and> c1 \<le> c2 \<and> unat r2 < n_rows M \<and> unat c2 < n_cols M
      then Some (block M (unat r1) (unat c1) (unat r2 - unat r1 + 1) (unat c2 - unat c1 + 1))
      else None)"

definition mat_rows :: "mat \<Rightarrow> uword \<Rightarrow> uword \<Rightarrow> mat option" where
  "mat_rows M r1 r2 =
     (if r1 \<le> r2 \<and> unat r2 < n_rows M
      then Some (block M (unat r1) 0 (unat r2 - unat r1 + 1) (n_cols M)) else None)"

definition vec_rows :: "double list \<Rightarrow> uword \<Rightarrow> uword \<Rightarrow> double list option" where
  "vec_rows v r1 r2 =
     (if r1 \<le> r2 \<and> unat r2 < length v
      then Some (take (unat r2 - unat r1 + 1) (drop (unat r1) v)) else None)"

definition put_block :: "mat \<Rightarrow> nat \<Rightarrow> nat \<Rightarrow> mat \<Rightarrow> mat" where
  "put_block M r1 c1 B =
     M\<lparr>mem := map (\<lambda>j. if r1 \<le> j mod n_rows M \<and> j mod n_rows M < r1 + n_rows B \<and>
                          c1 \<le> j div n_rows M \<and> j div n_rows M < c1 + n_cols B
                       then mem B ! ((j mod n_rows M - r1) + (j div n_rows M - c1) * n_rows B)
                       else mem M ! j) [0..<n_elem M]\<rparr>"

definition assign_submat :: "mat \<Rightarrow> uword \<Rightarrow> uword \<Rightarrow> uword \<Rightarrow> uword \<Rightarrow> mat \<Rightarrow> mat option" where
  "assign_submat M r1 c1 r2 c2 B =
     (if r1 \<le> r2 \<and> c1 \<le> c2 \<and> unat r2 < n_rows M \<and> unat c2 < n_cols M \<and>
         n_rows B = unat r2 - unat r1 + 1 \<and> n_cols B = unat c2 - unat c1 + 1
      then Some (put_block M (unat r1) (unat c1) B) else None)"

record fcstate =
  xtnew :: mat
  yfor :: "double list"

definition forecast_body ::
  "mat \<Rightarrow> mat \<Rightarrow> mat \<Rightarrow> mat \<Rightarrow> uword list \<Rightarrow> uword \<Rightarrow> nat \<Rightarrow> fcstate \<Rightarrow> fcstate option" where
  "forecast_body matrixF matrixw wex xtreg lags maxlag i s = do {
     x \<leftarrow> mat_elem (xtnew s) (lagrows_at lags maxlag i);
     fx \<leftarrow> mat_times_col matrixF x;
     m \<leftarrow> set_row (xtnew s) i fx;
     x' \<leftarrow> mat_elem m (lagrows_at lags maxlag i);
     wrow \<leftarrow> mat_row matrixw (i - unat maxlag);
     a \<leftarrow> row_times_col wrow x';
     wexrow \<leftarrow> mat_row wex (i - unat maxlag);
     xtregrow \<leftarrow> mat_row xtreg (i - unat maxlag);
     b \<leftarrow> row_times_col wexrow xtregrow;
     yfor' \<leftarrow> vec_set (yfor s) (i - unat maxlag) (a + b);
     Some \<lparr>xtnew = m, yfor = yfor'\<rparr>
   }"

definition ssforecaster ::
  "mat \<Rightarrow> mat \<Rightarrow> mat \<Rightarrow> nat \<Rightarrow> uword list \<Rightarrow> mat \<Rightarrow> mat \<Rightarrow> double list option" where
  "ssforecaster matrixxt matrixF matrixw hor lags wex xtreg = do {
     maxlag \<leftarrow> max_uvec lags;
     let hh = hor + unat maxlag;
     let matrixxtnew = filled hh (n_cols matrixxt) 0;
     let lastcol = of_nat (n_cols matrixxtnew) - 1;
     init \<leftarrow> submat matrixxt 0 0 (maxlag - 1) lastcol;
     m \<leftarrow> assign_submat matrixxtnew 0 0 (maxlag - 1) lastcol init;
     s \<leftarrow> for_each [unat maxlag..<hor + unat maxlag]
            (forecast_body matrixF matrixw wex xtreg (offset_lags hh maxlag lags) maxlag)
            \<lparr>xtnew = m, yfor = replicate hor 0\<rparr>;
     Some (yfor s)
   }"

definition errorer_body ::
  "mat \<Rightarrow> mat \<Rightarrow> mat \<Rightarrow> double list \<Rightarrow> nat \<Rightarrow> uword list \<Rightarrow> uword \<Rightarrow> mat \<Rightarrow> mat \<Rightarrow>
   nat \<Rightarrow> mat \<Rightarrow> mat option" where
  "errorer_body matrixxt matrixF matrixw matyt hor lags maxlag wex xtreg i materrors = do {
     let hh = min hor (length matyt + unat maxlag - i);
     let t = of_nat i - maxlag;
     let last = t + of_nat hh - 1;
     ys \<leftarrow> vec_rows matyt t last;
     xs \<leftarrow> mat_rows matrixxt t (of_nat i - 1);
     ws \<leftarrow> mat_rows matrixw t last;
     wexs \<leftarrow> mat_rows wex t last;
     xtregs \<leftarrow> mat_rows xtreg t last;
     f \<leftarrow> ssforecaster xs matrixF ws hh lags wexs xtregs;
     d \<leftarrow> vec_sub ys f;
     assign_submat materrors t 0 t (of_nat hh - 1) (row_mat d)
   }"

definition sserrorer ::
  "mat \<Rightarrow> mat \<Rightarrow> mat \<Rightarrow> double list \<Rightarrow> nat \<Rightarrow> uword list \<Rightarrow> mat \<Rightarrow> mat \<Rightarrow> mat option" where
  "sserrorer matrixxt matrixF matrixw matyt hor lags wex xtreg = do {
     maxlag \<leftarrow> max_uvec lags;
     for_each [unat maxlag..<length matyt + unat maxlag]
       (errorer_body matrixxt matrixF matrixw matyt hor lags maxlag wex xtreg)
       (filled (length matyt) hor NA_REAL)
   }"

section \<open>The cost function\<close>

fun dabs :: "double \<Rightarrow> double" where
  "dabs (Fin a) = Fin \<bar>a\<bar>"
| "dabs PInf = PInf"
| "dabs NInf = PInf"
| "dabs NaN = NaN"

fun dsqrt :: "double \<Rightarrow> double" where
  "dsqrt (Fin a) = (if 0 \<le> a then Fin (sqrt a) else NaN)"
| "dsqrt PInf = PInf"
| "dsqrt NInf = NaN"
| "dsqrt NaN = NaN"

definition square :: "double \<Rightarrow> double" where
  "square x = x * x"

text \<open>
  Armadillo's \<open>mean\<close>: the sum divided by the number of elements and, when that is not
  finite, the running mean.  The mean of no elements is not a scalar.
\<close>

definition mean_robust :: "double list \<Rightarrow> double" where
  "mean_robust xs =
     foldl (\<lambda>r (k, x). r + (x - r) / Fin (real (k + 1))) 0 (zip [0..<length xs] xs)"

definition mean_value :: "double list \<Rightarrow> double" where
  "mean_value xs =
     (let m = foldl (+) 0 xs / Fin (real (length xs))
      in if is_finite m then m else mean_robust xs)"

definition arma_mean :: "double list \<Rightarrow> double option" where
  "arma_mean xs = (if xs = [] then None else Some (mean_value xs))"

text \<open>
  One round of the loops of \<open>TLV\<close> (\<open>f\<close> is the logarithm) and \<open>TV\<close> (\<open>f\<close> is the
  identity): \<open>CFres = CFres + f(mean(pow(materrors.submat(0,i,obs-i-1,i),2)))\<close>.
\<close>

definition trace_body ::
  "(double \<Rightarrow> double) \<Rightarrow> mat \<Rightarrow> nat \<Rightarrow> nat \<Rightarrow> double \<Rightarrow> double option" where
  "trace_body f materrors obs i CFres = do {
     col \<leftarrow> submat materrors 0 (of_nat i) (of_nat obs - of_nat i - 1) (of_nat i);
     m \<leftarrow> arma_mean (map square (mem col));
     Some (CFres + f m)
   }"

text \<open>
  The generalised variance of \<open>GV\<close> needs the eigenvalues or the determinant of a
  matrix, which are not modelled: \<open>gv\<close> stands for that computation, from the matrix of
  errors, \<open>normalize\<close> and \<open>hor\<close>.
\<close>

definition ssoptimizer ::
  "(mat \<Rightarrow> double \<Rightarrow> nat \<Rightarrow> double option) \<Rightarrow> (nat \<Rightarrow> double) \<Rightarrow>
   mat \<Rightarrow> mat \<Rightarrow> mat \<Rightarrow> mat \<Rightarrow> double list \<Rightarrow> double list \<Rightarrow> nat \<Rightarrow> uword list \<Rightarrow> string \<Rightarrow>
   double \<Rightarrow> bool \<Rightarrow> mat \<Rightarrow> mat \<Rightarrow> double option" where
  "ssoptimizer gv uninit matrixxt matrixF matrixw matrixv matyt matg hor lags CFtype normalize_v
     backcasting wex xtreg = do {
     fitting \<leftarrow>
       (if backcasting
        then ssfitterbackcast uninit matrixxt matrixF matrixw matrixv matyt matg lags wex xtreg
        else ssfitter matrixxt matrixF matrixw matrixv matyt matg lags wex xtreg);
     let obs = length matyt;
     let matrixxt' = fit_matxt fitting;
     let errorsfromfit = fit_errors fitting;
     let xtreg' = fit_xtreg fitting;
     if CFtype = ''GV'' then do {
       materrors \<leftarrow> sserrorer matrixxt' matrixF matrixw matyt hor lags wex xtreg';
       gv materrors normalize_v hor
     }
     else if CFtype = ''TLV'' then do {
       materrors \<leftarrow> sserrorer matrixxt' matrixF matrixw matyt hor lags wex xtreg';
       for_each [0..<hor] (trace_body dlog materrors obs) 0
     }
     else if CFtype = ''TV'' then do {
       materrors \<leftarrow> sserrorer matrixxt' matrixF matrixw matyt hor lags wex xtreg';
       for_each [0..<hor] (trace_body (\<lambda>m. m) materrors obs) 0
     }
     else if CFtype = ''hsteps'' then do {
       materrors \<leftarrow> sserrorer matrixxt' matrixF matrixw matyt hor lags wex xtreg';
       col \<leftarrow> submat materrors 0 (of_nat hor - 1) (of_nat obs - of_nat hor) (of_nat hor - 1);
       arma_mean (map square (mem col))
     }
     else if CFtype = ''MSE'' then arma_mean (map square errorsfromfit)
     else if CFtype = ''MAE'' then arma_mean (map dabs errorsfromfit)
     else arma_mean (map (\<lambda>x. dsqrt (dabs x)) errorsfromfit)
   }"

section \<open>Concrete inputs\<close>

definition col_mat :: "double list \<Rightarrow> mat" where
  "col_mat xs = \<lparr>n_rows = length xs, n_cols = 1, mem = xs\<rparr>"

text \<open>
  The filter on the scalar model: one component of lag 1, transition 1, measurement 1,
  persistence 0.3, scale 1, the series 1, 2, 3, 4, 5 and no exogenous contribution; the
  argument is the column of the state history.
\<close>

definition scalar_fit :: "double list \<Rightarrow> mat \<Rightarrow> fitting option" where
  "scalar_fit states xtreg =
     ssfitter (col_mat states) (col_mat [Fin 1]) (col_mat (replicate 5 (Fin 1)))
       (col_mat (replicate 5 (Fin 1))) [Fin 1, Fin 2, Fin 3, Fin 4, Fin 5] [Fin (3 / 10)] [1]
       (col_mat (replicate 5 0)) xtreg"

text \<open>The same model on one observation, for the backcast initializer.\<close>

definition tiny_backcast :: "mat \<Rightarrow> fitting option" where
  "tiny_backcast xtreg =
     ssfitterbackcast (\<lambda>_. NaN) (col_mat [0, 0]) (col_mat [Fin 1]) (col_mat [Fin 1])
       (col_mat [Fin 1]) [Fin 1] [Fin (3 / 10)] [1] (col_mat [0]) xtreg"

section \<open>The formulas of the specification and those of the code\<close>







text \<open>
  The lagged state of the specification for the current row \<open>i\<close>: of every component
  \<open>k\<close>, the value at row \<open>i - lag_k\<close>.
\<close>

definition lagged_state :: "mat \<Rightarrow> uword list \<Rightarrow> nat \<Rightarrow> double list" where
  "lagged_state X lags i =
     map (\<lambda>k. mem X ! ((i - unat (lags ! k)) + k * n_rows X)) [0..<length lags]"

text \<open>
  The fitted value and the new state row of the specification, from the lagged state
  \<open>x\<close> of period \<open>t\<close> and the residual \<open>e\<close>.
\<close>

definition fitted_value :: "mat \<Rightarrow> mat \<Rightarrow> mat \<Rightarrow> nat \<Rightarrow> double list \<Rightarrow> double" where
  "fitted_value matrixw wex xtreg t x = dot (row_of matrixw t) x + dot (row_of wex t) (row_of xtreg t)"

definition new_state_row :: "mat \<Rightarrow> mat \<Rightarrow> double list \<Rightarrow> nat \<Rightarrow> double list \<Rightarrow> double \<Rightarrow> double list" where
  "new_state_row matrixF matrixv matg t x e =
     map2 (+) (mat_vec matrixF x) (vec_scale (map2 (/) matg (row_of matrixv t)) e)"

text \<open>
  A model of two components of lag 1 that never moves: identity transition and no
  persistence, the state \<open>(1, 2)\<close> before the sample, two observations.
\<close>

definition still_xt :: mat where
  "still_xt = \<lparr>n_rows = 3, n_cols = 2, mem = [Fin 1, 0, 0, Fin 2, 0, 0]\<rparr>"

definition still_F :: mat where
  "still_F = \<lparr>n_rows = 2, n_cols = 2, mem = [Fin 1, 0, 0, Fin 1]\<rparr>"

definition still_w :: mat where
  "still_w = \<lparr>n_rows = 2, n_cols = 2, mem = [Fin 1, Fin 1, Fin 1, Fin 1]\<rparr>"

definition still_cycles :: "fstate option" where
  "still_cycles =
     backcast_cycles still_xt still_F still_w still_w [Fin 3, Fin 5] [0, 0] [1, 1]
       (col_mat [0, 0]) (col_mat [0, 0])"

definition still_backcast :: "(nat \<Rightarrow> double) \<Rightarrow> fitting option" where
  "still_backcast uninit =
     ssfitterbackcast uninit still_xt still_F still_w still_w [Fin 3, Fin 5] [0, 0] [1, 1]
       (col_mat [0, 0]) (col_mat [0, 0])"

definition still_start :: fstate where
  "still_start =
     \<lparr>xt = \<lparr>n_rows = 4, n_cols = 2, mem = [Fin 1, 0, 0, 0, Fin 2, 0, 0, 0]\<rparr>,
      fitv = [0, 0], errv = [0, 0]\<rparr>"

definition still_refined :: fstate where
  "still_refined =
     \<lparr>xt = \<lparr>n_rows = 4, n_cols = 2,
            mem = [Fin 1, Fin 1, Fin 1, Fin 1, Fin 2, Fin 2, Fin 2, Fin 2]\<rparr>,
      fitv = [Fin 3, Fin 3], errv = [Fin 0, Fin 2]\<rparr>"

text \<open>
  The sum of the trace losses in the words of the specification: over the horizons
  \<open>h = 1, \<dots>, hor\<close>, \<open>f\<close> of the mean of the squares of the first \<open>rows h\<close> elements of
  column \<open>h\<close> of the matrix of errors (\<open>f\<close> is the logarithm for \<open>TLV\<close>, the identity
  for \<open>TV\<close>).
\<close>

definition col_prefix :: "mat \<Rightarrow> nat \<Rightarrow> nat \<Rightarrow> double list" where
  "col_prefix E c n = map (\<lambda>r. mem E ! (r + c * n_rows E)) [0..<n]"

definition trace_sum :: "(double \<Rightarrow> double) \<Rightarrow> mat \<Rightarrow> nat \<Rightarrow> (nat \<Rightarrow> nat) \<Rightarrow> double" where
  "trace_sum f E hor rows =
     foldl (+) 0 (map (\<lambda>h. f (mean_value (map square (col_prefix E (h - 1) (rows h))))) [1..<Suc hor])"

text \<open>The scalar model on the series 1, 2, 3 with the horizon 2.\<close>

definition short_y :: "double list" where
  "short_y = [Fin 1, Fin 2, Fin 3]"

definition short_fit :: "fitting option" where
  "short_fit =
     ssfitter (col_mat [0, 0, 0, 0]) (col_mat [Fin 1]) (col_mat [Fin 1, Fin 1, Fin 1])
       (col_mat [Fin 1, Fin 1, Fin 1]) short_y [Fin (3 / 10)] [1]
       (col_mat [0, 0, 0]) (col_mat [0, 0, 0])"

definition short_errorer :: "mat \<Rightarrow> nat \<Rightarrow> mat option" where
  "short_errorer states hor =
     sserrorer states (col_mat [Fin 1]) (col_mat [Fin 1, Fin 1, Fin 1]) short_y
       hor [1] (col_mat [0, 0, 0]) (col_mat [0, 0, 0])"

definition short_cost :: "string \<Rightarrow> double option" where
  "short_cost CFtype =
     ssoptimizer (\<lambda>E n h. None) (\<lambda>j. NaN) (col_mat [0, 0, 0, 0]) (col_mat [Fin 1])
       (col_mat [Fin 1, Fin 1, Fin 1]) (col_mat [Fin 1, Fin 1, Fin 1]) short_y
       [Fin (3 / 10)] 2 [1] CFtype (Fin 1) False (col_mat [0, 0, 0]) (col_mat [0, 0, 0])"

definition short_states :: mat where
  "short_states = col_mat [Fin 0, Fin (3 / 10), Fin (81 / 100), Fin (1467 / 1000)]"

definition short_errors :: mat where
  "short_errors =
     \<lparr>n_rows = 3, n_cols = 2,
      mem = [Fin 1, Fin (17 / 10), Fin (219 / 100), Fin 2, Fin (27 / 10), NaN]\<rparr>"

text \<open>
  The number of columns that the error evaluator fills in row \<open>t\<close>
  (\<open>hh = min(hor, obs + maxlag - i)\<close> with \<open>i = t + maxlag\<close>), and the forecast it
  subtracts there: the forecaster on the \<open>maxlag\<close> rows of the state history from row \<open>t\<close>
  and the \<open>hh\<close> rows of the measurement and exogenous matrices from row \<open>t\<close>.
\<close>

definition filled_columns :: "nat \<Rightarrow> nat \<Rightarrow> nat \<Rightarrow> nat" where
  "filled_columns hor obs t = min hor (obs - t)"

definition origin_forecast ::
  "mat \<Rightarrow> mat \<Rightarrow> mat \<Rightarrow> uword list \<Rightarrow> mat \<Rightarrow> mat \<Rightarrow> nat \<Rightarrow> nat \<Rightarrow> nat \<Rightarrow> double list option" where
  "origin_forecast matrixxt matrixF matrixw lags wex xtreg maxlag hh t =
     ssforecaster (block matrixxt t 0 maxlag (n_cols matrixxt)) matrixF
       (block matrixw t 0 hh (n_cols matrixw)) hh lags
       (block wex t 0 hh (n_cols wex)) (block xtreg t 0 hh (n_cols xtreg))"

text \<open>The first \<open>n\<close> rows of a matrix are finite.\<close>

definition rows_finite :: "mat \<Rightarrow> nat \<Rightarrow> bool" where
  "rows_finite M n \<longleftrightarrow>
     list_all (\<lambda>r. list_all (\<lambda>c. is_finite (mem M ! (r + c * n_rows M))) [0..<n_cols M]) [0..<n]"

section \<open>The range of the doubles\<close>

lemma overflow_threshold_power: "overflow_threshold = 2 ^ 1024 - 2 ^ 970"
  by (simp add: overflow_threshold_def)

lemma of_exact_code [code]:
  "of_exact x = (if \<bar>x\<bar> < 1000000 then Fin x
                 else if \<bar>x\<bar> < overflow_threshold then Fin x
                 else if 0 < x then PInf else NInf)"
  by (simp add: of_exact_def overflow_threshold_def)

lemma product_overflows: "Fin 10 * Fin (10 ^ 308) = PInf \<and> Fin (- 10) * Fin (10 ^ 308) = NInf"
  by (simp add: times_double_def of_exact_def overflow_threshold_def)

lemma sum_of_overflows: "dot [Fin 10, Fin (- 10)] [Fin (10 ^ 308), Fin (10 ^ 308)] = NaN"
  using product_overflows by (simp add: dot_def zero_double_def plus_double_def)

lemma of_exact_small: "\<bar>x\<bar> < 1000000 \<Longrightarrow> of_exact x = Fin x"
  by (simp add: of_exact_def overflow_threshold_def)

lemma fin_add_small: "\<bar>a + b\<bar> < 1000000 \<Longrightarrow> Fin a + Fin b = Fin (a + b)"
  by (simp add: plus_double_def of_exact_small)

lemma fin_sum_small:
  assumes "\<bar>a\<bar> < 1000" "\<bar>b\<bar> < 1000"
  shows "0 + Fin a + Fin b = Fin (a + b)"
proof -
  have "0 + Fin a = Fin a"
    using assms(1) fin_add_small[of 0 a] by (simp add: zero_double_def)
  moreover have "\<bar>a + b\<bar> < 1000000" using assms by linarith
  ultimately show ?thesis by (simp add: fin_add_small)
qed

lemma log_sum_small:
  assumes "1 \<le> a" "a < 10" "1 \<le> b" "b < 10"
  shows "0 + dlog (Fin a) + dlog (Fin b) = Fin (ln a + ln b)"
proof -
  have la: "0 \<le> ln a" "ln a < 10"
    using ln_ge_zero[OF assms(1)] ln_le_minus_one[of a] assms(1,2) by linarith+
  have lb: "0 \<le> ln b" "ln b < 10"
    using ln_ge_zero[OF assms(3)] ln_le_minus_one[of b] assms(3,4) by linarith+
  have "dlog (Fin a) = Fin (ln a)" "dlog (Fin b) = Fin (ln b)"
    using assms by simp_all
  moreover have "0 + Fin (ln a) + Fin (ln b) = Fin (ln a + ln b)"
    using la lb by (intro fin_sum_small) simp_all
  ultimately show ?thesis by simp
qed

section \<open>Words, loops and the substitution of non-finite values\<close>

lemma unat_of_nat32: "j < 2 ^ 32 \<Longrightarrow> unat (of_nat j :: uword) = j"
  by (simp add: unat_of_nat)

lemma of_nat_pred32: "0 < j \<Longrightarrow> (of_nat j - 1 :: uword) = of_nat (j - 1)"
  by (cases j) simp_all

lemma unat_minus_one32: "unat (- 1 :: uword) = 2 ^ 32 - 1"
  by (simp add: unsigned_minus_1_eq_mask mask_eq_exp_minus_1)

lemma for_each_append:
  "for_each (xs @ ys) body s = for_each xs body s \<bind> for_each ys body"
  by (induction xs arbitrary: s) (simp_all split: bind_splits)

lemma for_each_invariant:
  assumes "for_each xs body s = Some s'" and "P s"
    and "\<And>i a b. i \<in> set xs \<Longrightarrow> P a \<Longrightarrow> body i a = Some b \<Longrightarrow> P b"
  shows "P s'"
  using assms
proof (induction xs arbitrary: s)
  case Nil
  then show ?case by simp
next
  case (Cons i js)
  from Cons.prems(1) obtain m where m: "body i s = Some m" "for_each js body m = Some s'"
    by (auto simp: bind_eq_Some_conv)
  have "P m" using Cons.prems(3)[of i s m] Cons.prems(2) m(1) by simp
  show ?case
    by (rule Cons.IH[OF m(2) \<open>P m\<close>]) (use Cons.prems(3) in auto)
qed

lemma find_nonfinite_set:
  "n_elem M < 2 ^ 32 \<Longrightarrow>
   set (find_nonfinite M) = of_nat ` {j. j < n_elem M \<and> \<not> is_finite (mem M ! j)}"
  by (auto simp: find_nonfinite_def)

lemma mat_elem_Some_iff:
  "mat_elem M idx \<noteq> None \<longleftrightarrow> (\<forall>j \<in> set idx. unat j < n_elem M)"
  by (simp add: mat_elem_def list_all_iff)

lemma find_nonfinite_in_bounds:
  assumes "n_elem M < 2 ^ 32" "j \<in> set (find_nonfinite M)"
  shows "unat j < n_elem M"
  using assms by (auto simp: find_nonfinite_def unat_of_nat32)

lemma mat_elem_length: "mat_elem M idx = Some vals \<Longrightarrow> length vals = length idx"
  by (auto simp: mat_elem_def split: if_splits)

lemma elem_assign_find_nonfinite:
  assumes "n_elem M < 2 ^ 32" "length vals = length (find_nonfinite M)"
  shows "elem_assign M (find_nonfinite M) vals \<noteq> None"
  using assms find_nonfinite_in_bounds[OF assms(1)] by (simp add: elem_assign_def list_all_iff)

lemma subst_nonfinite_None_iff:
  assumes "n_elem M < 2 ^ 32"
  shows "subst_nonfinite d M = None \<longleftrightarrow>
         (\<exists>j. j < n_elem M \<and> \<not> is_finite (mem M ! j) \<and> \<not> unat (of_nat j + d :: uword) < n_elem M)"
proof -
  let ?idx = "map (\<lambda>j. j + d) (find_nonfinite M)"
  have "subst_nonfinite d M = None \<longleftrightarrow> mat_elem M ?idx = None"
  proof (cases "mat_elem M ?idx")
    case None
    then show ?thesis by (simp add: subst_nonfinite_def)
  next
    case (Some vals)
    then have "length vals = length (find_nonfinite M)"
      using mat_elem_length by fastforce
    then show ?thesis
      using Some elem_assign_find_nonfinite[OF assms] by (simp add: subst_nonfinite_def)
  qed
  also have "\<dots> \<longleftrightarrow> (\<exists>w \<in> set (find_nonfinite M). \<not> unat (w + d) < n_elem M)"
    using mat_elem_Some_iff[of M ?idx] by auto
  also have "\<dots> \<longleftrightarrow> (\<exists>j. j < n_elem M \<and> \<not> is_finite (mem M ! j) \<and>
                  \<not> unat (of_nat j + d :: uword) < n_elem M)"
    unfolding find_nonfinite_set[OF assms] by blast
  finally show ?thesis .
qed

lemma unat_prev_index:
  assumes "n_elem M < 2 ^ 32" "j < n_elem M"
  shows "unat (of_nat j + (- 1) :: uword) = (if j = 0 then 2 ^ 32 - 1 else j - 1)"
proof (cases "j = 0")
  case True
  then show ?thesis by (simp add: unat_minus_one32)
next
  case False
  then have e: "(of_nat j + (- 1) :: uword) = of_nat (j - 1)"
    using of_nat_pred32[of j] by simp
  have "unat (of_nat (j - 1) :: uword) = j - 1"
    using assms by (intro unat_of_nat32) simp
  then show ?thesis unfolding e using False by simp
qed

lemma subst_prev_None_iff:
  assumes "n_elem M < 2 ^ 32"
  shows "subst_prev M = None \<longleftrightarrow> 0 < n_elem M \<and> \<not> is_finite (mem M ! 0)"
proof -
  have "unat (of_nat j + (- 1) :: uword) < n_elem M \<longleftrightarrow> j \<noteq> 0" if "j < n_elem M" for j
    using unat_prev_index[OF assms that] assms that by (cases "j = 0") simp_all
  then show ?thesis
    unfolding subst_prev_def subst_nonfinite_None_iff[OF assms] by auto
qed

lemma measure_step_xt: "measure_step w y wex xtreg t x s = Some s1 \<Longrightarrow> xt s1 = xt s"
  by (auto simp: measure_step_def bind_eq_Some_conv)

lemma put_row_dims [simp]:
  "n_rows (put_row M i r) = n_rows M" "n_cols (put_row M i r) = n_cols M"
  "n_elem (put_row M i r) = n_elem M" "length (mem (put_row M i r)) = n_elem M"
  by (simp_all add: put_row_def n_elem_def)

lemma put_row_nth:
  "j < n_elem M \<Longrightarrow>
   mem (put_row M i r) ! j = (if j mod n_rows M = i then r ! (j div n_rows M) else mem M ! j)"
  by (simp add: put_row_def)

lemma filter_step_first_nonfinite:
  assumes "n_elem (xt s) < 2 ^ 32" "0 < n_elem (xt s)" "\<not> is_finite (mem (xt s) ! 0)" "i \<noteq> 0"
  shows "filter_step (- 1) matrixF matrixw matrixv wex xtreg matyt matg lagrows t i s = None"
proof -
  have sub: "subst_nonfinite (- 1) m1 = None"
    if "measure_step matrixw matyt wex xtreg t x s = Some s1" "set_row (xt s1) i r = Some m1"
    for x s1 r m1
  proof -
    have m1: "m1 = put_row (xt s) i r"
      using that measure_step_xt[OF that(1)] by (auto simp: set_row_def split: if_splits)
    have "mem m1 ! 0 = mem (xt s) ! 0"
      unfolding m1 using assms(2,4) by (simp add: put_row_nth)
    then show ?thesis
      using subst_prev_None_iff[of m1] assms(1,2,3) unfolding m1 subst_prev_def by simp
  qed
  show ?thesis
  proof (rule ccontr)
    assume "filter_step (- 1) matrixF matrixw matrixv wex xtreg matyt matg lagrows t i s \<noteq> None"
    then obtain x s1 r m1 m2 where
      "measure_step matrixw matyt wex xtreg t x s = Some s1" "set_row (xt s1) i r = Some m1"
      "subst_nonfinite (- 1) m1 = Some m2"
      by (auto simp: filter_step_def bind_eq_Some_conv)
    then show False using sub by force
  qed
qed

text \<open>
  With a first element that is not finite the filter stops in its first round, whatever
  the other arguments are.
\<close>

lemma ssfitter_first_nonfinite:
  assumes "max_uvec lags = Some maxlag" "0 < unat maxlag" "unat maxlag < n_rows matrixxt"
    and "0 < n_cols matrixxt" "n_elem matrixxt < 2 ^ 32" "\<not> is_finite (mem matrixxt ! 0)"
  shows "ssfitter matrixxt matrixF matrixw matrixv matyt matg lags wex xtreg = None"
proof -
  have "0 < n_elem matrixxt"
    using assms(2,3,4) by (simp add: n_elem_def)
  then have "ssfitter_body matrixF matrixw matrixv matyt matg
       (offset_lags (n_rows matrixxt) maxlag lags) maxlag wex xtreg (unat maxlag)
       \<lparr>xt = matrixxt, fitv = replicate (length matyt) 0, errv = replicate (length matyt) 0\<rparr> = None"
    unfolding ssfitter_body_def using assms(2,5,6) by (intro filter_step_first_nonfinite) simp_all
  then show ?thesis
    using assms(1,3) by (simp add: ssfitter_def ssfitter_loop_def upt_conv_Cons)
qed

section \<open>Lag offsets\<close>

lemma fold_max_ge: "(a :: uword) \<le> fold max ls a"
proof (induction ls arbitrary: a)
  case Nil
  then show ?case by simp
next
  case (Cons x xs)
  have "a \<le> max x a" by simp
  also have "\<dots> \<le> fold max xs (max x a)" by (rule Cons.IH)
  finally show ?case by simp
qed

lemma fold_max_mem: "l \<in> set ls \<Longrightarrow> (l :: uword) \<le> fold max ls a"
proof (induction ls arbitrary: a)
  case Nil
  then show ?case by simp
next
  case (Cons x xs)
  show ?case
  proof (cases "l = x")
    case True
    have "x \<le> max x a" by simp
    also have "\<dots> \<le> fold max xs (max x a)" by (rule fold_max_ge)
    finally show ?thesis using True by simp
  next
    case False
    then show ?thesis using Cons by simp
  qed
qed

lemma max_uvec_ge: "max_uvec lags = Some m \<Longrightarrow> l \<in> set lags \<Longrightarrow> l \<le> m"
  by (cases lags) (auto simp: fold_max_ge fold_max_mem)


lemma forward_lag_word:
  fixes m l :: uword
  assumes "l \<le> m" "unat m \<le> i"
  shows "(m - l) + of_nat (rows * k) - m + of_nat i = (of_nat (i - unat l + k * rows) :: uword)"
proof -
  have "unat l \<le> i" using assms by (meson order_trans word_le_nat_alt)
  then have "(of_nat (i - unat l) :: uword) = of_nat i - l"
    by (simp add: of_nat_diff)
  then show ?thesis by (simp add: algebra_simps)
qed

lemma lagrows_forward:
  assumes "max_uvec lags = Some maxlag" "unat maxlag \<le> i" "i < rows" "rows * length lags < 2 ^ 32"
    and "k < length lags"
  shows "unat (lagrows_at (offset_lags rows maxlag lags) maxlag i ! k) = (i - unat (lags ! k)) + k * rows"
proof -
  have le: "lags ! k \<le> maxlag"
    using max_uvec_ge[OF assms(1), of "lags ! k"] assms(5) by simp
  have w: "lagrows_at (offset_lags rows maxlag lags) maxlag i ! k
           = (maxlag - lags ! k) + of_nat (rows * k) - maxlag + of_nat i"
    using assms(5)
    by (cases "k = 0")
      (simp_all add: lagrows_at_def offset_lags_def add_offsets_def reverse_lags_def)
  have "(i - unat (lags ! k)) + k * rows < rows + k * rows"
    using assms(3) by simp
  also have "\<dots> = rows * Suc k" by simp
  also have "\<dots> \<le> rows * length lags"
    using assms(5) by (intro mult_le_mono2) simp
  finally have "(i - unat (lags ! k)) + k * rows < 2 ^ 32"
    using assms(4) by simp
  then show ?thesis
    unfolding w forward_lag_word[OF le assms(2)] by (rule unat_of_nat32)
qed

lemma gather_forward:
  assumes "max_uvec lags = Some maxlag" "unat maxlag \<le> i" "i < n_rows X"
    and "n_rows X * length lags < 2 ^ 32"
  shows "map (\<lambda>j. mem X ! unat j) (lagrows_at (offset_lags (n_rows X) maxlag lags) maxlag i)
         = lagged_state X lags i"
proof (rule nth_equalityI)
  show "length (map (\<lambda>j. mem X ! unat j) (lagrows_at (offset_lags (n_rows X) maxlag lags) maxlag i))
        = length (lagged_state X lags i)"
    by (simp add: lagrows_at_def offset_lags_def add_offsets_def reverse_lags_def lagged_state_def)
next
  fix k
  assume "k < length (map (\<lambda>j. mem X ! unat j)
                 (lagrows_at (offset_lags (n_rows X) maxlag lags) maxlag i))"
  then have k: "k < length lags"
    by (simp add: lagrows_at_def offset_lags_def add_offsets_def reverse_lags_def)
  then have kl: "k < length (lagrows_at (offset_lags (n_rows X) maxlag lags) maxlag i)"
    by (simp add: lagrows_at_def offset_lags_def add_offsets_def reverse_lags_def)
  show "map (\<lambda>j. mem X ! unat j) (lagrows_at (offset_lags (n_rows X) maxlag lags) maxlag i) ! k
        = lagged_state X lags i ! k"
    using lagrows_forward[OF assms(1,2,3,4) k] k kl by (simp add: lagged_state_def)
qed

section \<open>One round of the filter and its loop\<close>

lemma elem_assign_dims:
  "elem_assign M idx vals = Some M' \<Longrightarrow> n_rows M' = n_rows M \<and> n_cols M' = n_cols M"
  by (auto simp: elem_assign_def split: if_splits)

lemma subst_nonfinite_dims:
  "subst_nonfinite d M = Some M' \<Longrightarrow> n_rows M' = n_rows M \<and> n_cols M' = n_cols M"
  by (auto simp: subst_nonfinite_def bind_eq_Some_conv dest: elem_assign_dims)

lemma set_row_dims:
  "set_row M i r = Some M' \<Longrightarrow> n_rows M' = n_rows M \<and> n_cols M' = n_cols M"
  by (auto simp: set_row_def split: if_splits)

lemma measure_step_Some:
  assumes "measure_step matrixw matyt wex xtreg t x s = Some s1"
  shows "xt s1 = xt s" "t < length (fitv s)" "t < length (errv s)"
    "fitv s1 = (fitv s)[t := dot (row_of matrixw t) x + dot (row_of wex t) (row_of xtreg t)]"
    "errv s1 = (errv s)[t := matyt ! t - fitv s1 ! t]"
  using assms
  by (auto simp: measure_step_def bind_eq_Some_conv mat_row_def row_times_col_def vec_set_def
      vec_at_def split: if_splits)

lemma transition_row_Some:
  assumes "transition_row matrixF matrixv matg t x e = Some r"
  shows "r = map2 (+) (mat_vec matrixF x) (vec_scale (map2 (/) matg (row_of matrixv t)) e)"
  using assms
  by (auto simp: transition_row_def bind_eq_Some_conv mat_times_col_def mat_row_def vec_div_def
      vec_add_def split: if_splits)

lemma filter_step_Some:
  assumes "filter_step d matrixF matrixw matrixv wex xtreg matyt matg lagrows t i s = Some s'"
  shows "t < length (fitv s)" "t < length (errv s)"
    "fitv s' = (fitv s)[t := dot (row_of matrixw t) (map (\<lambda>j. mem (xt s) ! unat j) lagrows)
                              + dot (row_of wex t) (row_of xtreg t)]"
    "errv s' = (errv s)[t := matyt ! t - fitv s' ! t]"
    "\<exists>m1. set_row (xt s) i
            (map2 (+) (mat_vec matrixF (map (\<lambda>j. mem (xt s) ! unat j) lagrows))
               (vec_scale (map2 (/) matg (row_of matrixv t)) (errv s' ! t))) = Some m1 \<and>
          subst_nonfinite d m1 = Some (xt s')"
proof -
  from assms obtain x s1 e r m1 m2 where
    x: "mat_elem (xt s) lagrows = Some x"
    and s1: "measure_step matrixw matyt wex xtreg t x s = Some s1"
    and e: "vec_at (errv s1) t = Some e"
    and r: "transition_row matrixF matrixv matg t x e = Some r"
    and m1: "set_row (xt s1) i r = Some m1"
    and m2: "subst_nonfinite d m1 = Some m2"
    and s': "s' = s1\<lparr>xt := m2\<rparr>"
    by (auto simp: filter_step_def bind_eq_Some_conv)
  have xv: "x = map (\<lambda>j. mem (xt s) ! unat j) lagrows"
    using x by (auto simp: mat_elem_def split: if_splits)
  note ms = measure_step_Some[OF s1]
  show "t < length (fitv s)" "t < length (errv s)" by (rule ms)+
  show "fitv s' = (fitv s)[t := dot (row_of matrixw t) (map (\<lambda>j. mem (xt s) ! unat j) lagrows)
                              + dot (row_of wex t) (row_of xtreg t)]"
    using ms(4) s' xv by simp
  show "errv s' = (errv s)[t := matyt ! t - fitv s' ! t]"
    using ms(5) s' by simp
  have ev: "e = errv s' ! t"
    using e s' by (auto simp: vec_at_def split: if_splits)
  show "\<exists>m1. set_row (xt s) i
            (map2 (+) (mat_vec matrixF (map (\<lambda>j. mem (xt s) ! unat j) lagrows))
               (vec_scale (map2 (/) matg (row_of matrixv t)) (errv s' ! t))) = Some m1 \<and>
          subst_nonfinite d m1 = Some (xt s')"
    using m1 m2 s' transition_row_Some[OF r] ms(1) xv ev by auto
qed

lemma filter_step_frame:
  assumes "filter_step d matrixF matrixw matrixv wex xtreg matyt matg lagrows t i s = Some s'"
  shows "n_rows (xt s') = n_rows (xt s)" "n_cols (xt s') = n_cols (xt s)"
    "length (fitv s') = length (fitv s)" "length (errv s') = length (errv s)"
    "u \<noteq> t \<Longrightarrow> fitv s' ! u = fitv s ! u" "u \<noteq> t \<Longrightarrow> errv s' ! u = errv s ! u"
proof -
  note f = filter_step_Some[OF assms]
  from f(5) obtain m1 where m1: "n_rows m1 = n_rows (xt s) \<and> n_cols m1 = n_cols (xt s)"
    "subst_nonfinite d m1 = Some (xt s')"
    using set_row_dims by blast
  show "n_rows (xt s') = n_rows (xt s)" "n_cols (xt s') = n_cols (xt s)"
    using subst_nonfinite_dims[OF m1(2)] m1(1) by simp_all
  show "length (fitv s') = length (fitv s)" "length (errv s') = length (errv s)"
    using f(3,4) by (metis length_list_update)+
  show "u \<noteq> t \<Longrightarrow> fitv s' ! u = fitv s ! u"
    using f(3) by (metis nth_list_update_neq)
  show "u \<noteq> t \<Longrightarrow> errv s' ! u = errv s ! u"
    using f(4) by (metis nth_list_update_neq)
qed

lemma bind_for_each_Nil: "x \<bind> for_each [] body = x"
  by (cases x) simp_all

lemma for_each_snoc:
  "for_each (xs @ [i]) body s = for_each xs body s \<bind> body i"
  by (cases "for_each xs body s") (simp_all add: for_each_append bind_for_each_Nil)

lemma upt_split_at:
  assumes "m \<le> i" "i < n"
  shows "[m..<n] = [m..<i] @ i # [Suc i..<n]"
proof -
  have "[m..<i + (n - i)] = [m..<i] @ [i..<i + (n - i)]"
    using assms(1) by (rule upt_add_eq_append)
  then show ?thesis using assms(2) by (simp add: upt_conv_Cons)
qed

lemma ssfitter_loop_step:
  assumes "max_uvec lags = Some maxlag" "unat maxlag \<le> i" "i < n"
    and "ssfitter_loop matrixxt matrixF matrixw matrixv matyt matg lags wex xtreg n = Some sn"
  shows "\<exists>s s'. ssfitter_loop matrixxt matrixF matrixw matrixv matyt matg lags wex xtreg i = Some s \<and>
           ssfitter_body matrixF matrixw matrixv matyt matg
             (offset_lags (n_rows matrixxt) maxlag lags) maxlag wex xtreg i s = Some s' \<and>
           ssfitter_loop matrixxt matrixF matrixw matrixv matyt matg lags wex xtreg (Suc i) = Some s' \<and>
           for_each [Suc i..<n]
             (ssfitter_body matrixF matrixw matrixv matyt matg
                (offset_lags (n_rows matrixxt) maxlag lags) maxlag wex xtreg) s' = Some sn"
proof -
  let ?body = "ssfitter_body matrixF matrixw matrixv matyt matg
                 (offset_lags (n_rows matrixxt) maxlag lags) maxlag wex xtreg"
  let ?s0 = "\<lparr>xt = matrixxt, fitv = replicate (length matyt) 0, errv = replicate (length matyt) 0\<rparr>"
  have split: "[unat maxlag..<n] = [unat maxlag..<i] @ i # [Suc i..<n]"
    using assms(2,3) by (rule upt_split_at)
  have "for_each ([unat maxlag..<i] @ i # [Suc i..<n]) ?body ?s0 = Some sn"
    using assms(1,4) unfolding ssfitter_loop_def split[symmetric] by simp
  then obtain s s' where s: "for_each [unat maxlag..<i] ?body ?s0 = Some s"
    and s': "?body i s = Some s'" and sn: "for_each [Suc i..<n] ?body s' = Some sn"
    by (auto simp: for_each_append bind_eq_Some_conv)
  have "for_each [unat maxlag..<Suc i] ?body ?s0 = Some s'"
    using assms(2) s s' by (simp add: for_each_snoc)
  then show ?thesis
    using s s' sn assms(1) unfolding ssfitter_loop_def by simp
qed

lemma ssfitter_loop_rows:
  assumes "ssfitter_loop matrixxt matrixF matrixw matrixv matyt matg lags wex xtreg n = Some s"
  shows "n_rows (xt s) = n_rows matrixxt \<and> n_cols (xt s) = n_cols matrixxt"
proof -
  from assms obtain maxlag where
    l: "for_each [unat maxlag..<n]
          (ssfitter_body matrixF matrixw matrixv matyt matg
             (offset_lags (n_rows matrixxt) maxlag lags) maxlag wex xtreg)
          \<lparr>xt = matrixxt, fitv = replicate (length matyt) 0, errv = replicate (length matyt) 0\<rparr>
        = Some s"
    by (auto simp: ssfitter_loop_def bind_eq_Some_conv)
  show ?thesis
    by (rule for_each_invariant[OF l])
      (auto simp: ssfitter_body_def dest: filter_step_frame(1,2))
qed

lemma ssfitter_tail_keeps:
  assumes "for_each [Suc i..<n]
             (ssfitter_body matrixF matrixw matrixv matyt matg lags' maxlag wex xtreg) s' = Some sn"
    and "unat maxlag \<le> i"
  shows "fitv sn ! (i - unat maxlag) = fitv s' ! (i - unat maxlag) \<and>
         errv sn ! (i - unat maxlag) = errv s' ! (i - unat maxlag)"
proof (rule for_each_invariant[OF assms(1)])
  show "fitv s' ! (i - unat maxlag) = fitv s' ! (i - unat maxlag) \<and>
        errv s' ! (i - unat maxlag) = errv s' ! (i - unat maxlag)"
    by simp
next
  fix j a b
  assume j: "j \<in> set [Suc i..<n]"
    and a: "fitv a ! (i - unat maxlag) = fitv s' ! (i - unat maxlag) \<and>
            errv a ! (i - unat maxlag) = errv s' ! (i - unat maxlag)"
    and b: "ssfitter_body matrixF matrixw matrixv matyt matg lags' maxlag wex xtreg j a = Some b"
  have ne: "i - unat maxlag \<noteq> j - unat maxlag"
    using j assms(2) by auto
  show "fitv b ! (i - unat maxlag) = fitv s' ! (i - unat maxlag) \<and>
        errv b ! (i - unat maxlag) = errv s' ! (i - unat maxlag)"
    using filter_step_frame(5,6)[OF b[unfolded ssfitter_body_def] ne] a by simp
qed

lemma put_row_row:
  assumes "i < n_rows M" "length r = n_cols M"
  shows "row_of (put_row M i r) i = r"
proof (rule nth_equalityI)
  show "length (row_of (put_row M i r) i) = length r"
    using assms by (simp add: row_of_def)
next
  fix c assume "c < length (row_of (put_row M i r) i)"
  then have c: "c < n_cols M" by (simp add: row_of_def)
  have "i + c * n_rows M < n_rows M + c * n_rows M"
    using assms(1) by simp
  also have "\<dots> = n_rows M * Suc c" by simp
  also have "\<dots> \<le> n_rows M * n_cols M"
    using c by (intro mult_le_mono2) simp
  finally have b: "i + c * n_rows M < n_elem M"
    by (simp add: n_elem_def)
  show "row_of (put_row M i r) i ! c = r ! c"
    using c b assms(1) by (simp add: row_of_def put_row_nth)
qed

section \<open>The cycles of the backcast initializer\<close>

lemma upt_0_4: "[0..<4] = [0, 1, 2, 3 :: nat]"
  by code_simp

lemma for_each_Cons_fun: "for_each (i # js) body = (\<lambda>s. body i s \<bind> for_each js body)"
  by (rule ext) simp

lemma for_each_Nil_fun: "for_each [] body = Some"
  by (rule ext) simp

text \<open>
  The four cycles of the backcast initializer: four forward passes, and a backward pass
  after each of the first three.
\<close>

lemma backcast_cycles_unrolled:
  assumes "max_uvec lags = Some maxlag"
    and "fwd = forward_pass matrixF matrixw matrixv matyt matg
           (add_offsets (n_rows matrixxt + unat maxlag) (reverse_lags maxlag lags)) maxlag wex xtreg
           (n_rows matrixxt)"
    and "bwd = backward_pass matrixF matrixw matrixv matyt matg
           (backlags_of (n_rows matrixxt + unat maxlag) (reverse_lags maxlag lags)) maxlag wex xtreg
           (n_rows matrixxt)"
  shows "backcast_cycles matrixxt matrixF matrixw matrixv matyt matg lags wex xtreg =
     fwd \<lparr>xt = resize matrixxt (n_rows matrixxt + unat maxlag) (n_cols matrixxt),
          fitv = replicate (length matyt) 0, errv = replicate (length matyt) 0\<rparr>
     \<bind> bwd \<bind> fwd \<bind> bwd \<bind> fwd \<bind> bwd \<bind> fwd"
proof -
  have c: "backcast_cycle matrixF matrixw matrixv matyt matg
       (add_offsets (n_rows matrixxt + unat maxlag) (reverse_lags maxlag lags))
       (backlags_of (n_rows matrixxt + unat maxlag) (reverse_lags maxlag lags)) maxlag wex xtreg
       (n_rows matrixxt) j = (\<lambda>s. fwd s \<bind> (\<lambda>s1. if j < 3 then bwd s1 else Some s1))" for j
    unfolding assms(2,3) by (rule ext) (simp add: backcast_cycle_def)
  show ?thesis
    using assms(1)
    by (simp add: backcast_cycles_def Let_def upt_0_4 for_each_Cons_fun for_each_Nil_fun c
        del: for_each.simps)
qed

lemma still_forward_start:
  "forward_pass still_F still_w still_w [Fin 3, Fin 5] [0, 0]
     (add_offsets (n_rows still_xt + unat (1 :: uword)) (reverse_lags 1 [1, 1])) 1
     (col_mat [0, 0]) (col_mat [0, 0]) (n_rows still_xt)
     \<lparr>xt = resize still_xt (n_rows still_xt + unat (1 :: uword)) (n_cols still_xt),
      fitv = replicate (length [Fin 3, Fin 5]) 0, errv = replicate (length [Fin 3, Fin 5]) 0\<rparr>
   = Some still_refined"
  by code_simp

lemma still_forward_refined:
  "forward_pass still_F still_w still_w [Fin 3, Fin 5] [0, 0]
     (add_offsets (n_rows still_xt + unat (1 :: uword)) (reverse_lags 1 [1, 1])) 1
     (col_mat [0, 0]) (col_mat [0, 0]) (n_rows still_xt) still_refined
   = Some still_refined"
  by code_simp

lemma still_backward_refined:
  "backward_pass still_F still_w still_w [Fin 3, Fin 5] [0, 0]
     (backlags_of (n_rows still_xt + unat (1 :: uword)) (reverse_lags 1 [1, 1])) 1
     (col_mat [0, 0]) (col_mat [0, 0]) (n_rows still_xt) still_refined
   = Some still_refined"
  by code_simp

lemma still_cycles_value: "still_cycles = Some still_refined"
proof -
  have m: "max_uvec [1, 1 :: uword] = Some 1" by simp
  show ?thesis
    unfolding still_cycles_def backcast_cycles_unrolled[OF m refl refl]
    unfolding still_forward_start bind.simps still_backward_refined still_forward_refined
    by (rule refl)
qed

lemma ssfitterbackcast_row_count:
  "ssfitterbackcast uninit matrixxt matrixF matrixw matrixv matyt matg lags wex xtreg = Some r \<Longrightarrow>
   n_rows (fit_matxt r) = n_rows matrixxt"
  by (auto simp: ssfitterbackcast_def set_size_def bind_eq_Some_conv)

section \<open>Dimensions of the matrix of errors and the trace losses\<close>

lemma assign_submat_dims:
  "assign_submat M r1 c1 r2 c2 B = Some M' \<Longrightarrow> n_rows M' = n_rows M \<and> n_cols M' = n_cols M"
  by (auto simp: assign_submat_def put_block_def split: if_splits)

lemma errorer_body_dims:
  "errorer_body matrixxt matrixF matrixw matyt hor lags maxlag wex xtreg i E = Some E' \<Longrightarrow>
   n_rows E' = n_rows E \<and> n_cols E' = n_cols E"
  by (auto simp: errorer_body_def Let_def bind_eq_Some_conv dest: assign_submat_dims)

lemma sserrorer_dims:
  assumes "sserrorer matrixxt matrixF matrixw matyt hor lags wex xtreg = Some E"
  shows "n_rows E = length matyt \<and> n_cols E = hor"
proof -
  from assms obtain maxlag where
    l: "for_each [unat maxlag..<length matyt + unat maxlag]
          (errorer_body matrixxt matrixF matrixw matyt hor lags maxlag wex xtreg)
          (filled (length matyt) hor NA_REAL) = Some E"
    by (auto simp: sserrorer_def bind_eq_Some_conv)
  show ?thesis
    by (rule for_each_invariant[OF l]) (auto simp: filled_def dest: errorer_body_dims)
qed

lemma for_each_accumulate:
  assumes "\<And>i a. i \<in> set xs \<Longrightarrow> body i a = Some (a + g i)"
  shows "for_each xs body (a :: double) = Some (foldl (+) a (map g xs))"
  using assms by (induction xs arbitrary: a) simp_all

lemma trace_body_value:
  assumes "n_rows E = obs" "n_cols E = hor" "i < hor" "hor \<le> obs" "obs < 2 ^ 32"
  shows "trace_body f E obs i a = Some (a + f (mean_value (map square (col_prefix E i (obs - i)))))"
proof -
  have i32: "i < 2 ^ 32" and io: "i < obs" using assms by simp_all
  have ui: "unat (of_nat i :: uword) = i"
    using i32 by (rule unat_of_nat32)
  have "(of_nat obs - of_nat i - 1 :: uword) = of_nat (obs - i - 1)"
    using io by (simp add: of_nat_diff)
  moreover have "unat (of_nat (obs - i - 1) :: uword) = obs - i - 1"
    using assms(5) by (intro unat_of_nat32) simp
  ultimately have ur: "unat (of_nat obs - of_nat i - 1 :: uword) = obs - i - 1"
    by simp
  have e: "obs - i - 1 + 1 = obs - i"
    using io by simp
  have sm: "submat E 0 (of_nat i) (of_nat obs - of_nat i - 1) (of_nat i)
            = Some (block E 0 i (obs - i) 1)"
    using assms(1,2,3) io unfolding submat_def ui ur by (simp add: e del: One_nat_def)
  have "mem (block E 0 i (obs - i) 1) = col_prefix E i (obs - i)"
    by (simp add: block_def col_prefix_def)
  moreover have "col_prefix E i (obs - i) \<noteq> []"
    using io by (simp add: col_prefix_def)
  ultimately show ?thesis
    by (simp add: trace_body_def sm arma_mean_def)
qed

lemma trace_loop_value:
  assumes "n_rows E = obs" "n_cols E = hor" "hor \<le> obs" "obs < 2 ^ 32"
  shows "for_each [0..<hor] (trace_body f E obs) 0 = Some (trace_sum f E hor (\<lambda>h. obs - h + 1))"
proof -
  have "for_each [0..<hor] (trace_body f E obs) 0
        = Some (foldl (+) 0 (map (\<lambda>i. f (mean_value (map square (col_prefix E i (obs - i))))) [0..<hor]))"
    using assms by (intro for_each_accumulate trace_body_value) simp_all
  moreover have "map (\<lambda>h. f (mean_value (map square (col_prefix E (h - 1) (obs - h + 1))))) [1..<Suc hor]
        = map (\<lambda>i. f (mean_value (map square (col_prefix E i (obs - i))))) [0..<hor]"
  proof -
    have "map (\<lambda>h. f (mean_value (map square (col_prefix E (h - 1) (obs - h + 1))))) [1..<Suc hor]
          = map (\<lambda>h. f (mean_value (map square (col_prefix E (h - 1) (obs - h + 1)))))
              (map Suc [0..<hor])"
      by (simp only: map_Suc_upt One_nat_def)
    also have "\<dots> = map (\<lambda>i. f (mean_value (map square (col_prefix E i (obs - Suc i + 1))))) [0..<hor]"
      by (simp add: comp_def)
    also have "\<dots> = map (\<lambda>i. f (mean_value (map square (col_prefix E i (obs - i))))) [0..<hor]"
    proof (rule map_cong[OF refl])
      fix i assume "i \<in> set [0..<hor]"
      then have "obs - Suc i + 1 = obs - i" using assms(3) by simp
      then show "f (mean_value (map square (col_prefix E i (obs - Suc i + 1))))
                 = f (mean_value (map square (col_prefix E i (obs - i))))"
        by simp
    qed
    finally show ?thesis .
  qed
  ultimately show ?thesis by (simp add: trace_sum_def)
qed

lemma ssoptimizer_trace_value:
  assumes "(if backcasting
            then ssfitterbackcast uninit matrixxt matrixF matrixw matrixv matyt matg lags wex xtreg
            else ssfitter matrixxt matrixF matrixw matrixv matyt matg lags wex xtreg) = Some ft"
    and "sserrorer (fit_matxt ft) matrixF matrixw matyt hor lags wex (fit_xtreg ft) = Some E"
    and "hor \<le> length matyt" "length matyt < 2 ^ 32"
  shows "ssoptimizer gv uninit matrixxt matrixF matrixw matrixv matyt matg hor lags ''TLV''
           normalize_v backcasting wex xtreg
           = Some (trace_sum dlog E hor (\<lambda>h. length matyt - h + 1))"
    and "ssoptimizer gv uninit matrixxt matrixF matrixw matrixv matyt matg hor lags ''TV''
           normalize_v backcasting wex xtreg
           = Some (trace_sum (\<lambda>m. m) E hor (\<lambda>h. length matyt - h + 1))"
proof -
  note d = sserrorer_dims[OF assms(2)]
  have l: "for_each [0..<hor] (trace_body f E (length matyt)) 0
           = Some (trace_sum f E hor (\<lambda>h. length matyt - h + 1))" for f
    using d assms(3,4) by (intro trace_loop_value) simp_all
  show "ssoptimizer gv uninit matrixxt matrixF matrixw matrixv matyt matg hor lags ''TLV''
           normalize_v backcasting wex xtreg
           = Some (trace_sum dlog E hor (\<lambda>h. length matyt - h + 1))"
    using assms(1,2) l[of dlog] by (simp add: ssoptimizer_def Let_def)
  show "ssoptimizer gv uninit matrixxt matrixF matrixw matrixv matyt matg hor lags ''TV''
           normalize_v backcasting wex xtreg
           = Some (trace_sum (\<lambda>m. m) E hor (\<lambda>h. length matyt - h + 1))"
    using assms(1,2) l[of "\<lambda>m. m"] by (simp add: ssoptimizer_def Let_def)
qed

lemma short_y_length: "length short_y = 3"
  by (simp add: short_y_def)

lemma short_fit_value:
  "short_fit = Some \<lparr>fit_matxt = short_states, fit_yfit = [Fin 0, Fin (3 / 10), Fin (81 / 100)],
                      fit_errors = [Fin 1, Fin (17 / 10), Fin (219 / 100)],
                      fit_xtreg = col_mat [0, 0, 0]\<rparr>"
  by code_simp

lemma short_errorer_value: "short_errorer short_states 2 = Some short_errors"
  by code_simp

lemma short_cost_value:
  "short_cost ''TLV'' = Some (trace_sum dlog short_errors 2 (\<lambda>h. 3 - h + 1))"
  "short_cost ''TV'' = Some (trace_sum (\<lambda>m. m) short_errors 2 (\<lambda>h. 3 - h + 1))"
proof -
  let ?ft = "\<lparr>fit_matxt = short_states, fit_yfit = [Fin 0, Fin (3 / 10), Fin (81 / 100)],
               fit_errors = [Fin 1, Fin (17 / 10), Fin (219 / 100)],
               fit_xtreg = col_mat [0, 0, 0]\<rparr>"
  have f: "(if False
            then ssfitterbackcast (\<lambda>j. NaN) (col_mat [0, 0, 0, 0]) (col_mat [Fin 1])
                   (col_mat [Fin 1, Fin 1, Fin 1]) (col_mat [Fin 1, Fin 1, Fin 1])
                   short_y [Fin (3 / 10)] [1] (col_mat [0, 0, 0]) (col_mat [0, 0, 0])
            else ssfitter (col_mat [0, 0, 0, 0]) (col_mat [Fin 1])
                   (col_mat [Fin 1, Fin 1, Fin 1]) (col_mat [Fin 1, Fin 1, Fin 1])
                   short_y [Fin (3 / 10)] [1] (col_mat [0, 0, 0]) (col_mat [0, 0, 0]))
        = Some ?ft"
    using short_fit_value by (simp add: short_fit_def)
  have e: "sserrorer (fit_matxt ?ft) (col_mat [Fin 1]) (col_mat [Fin 1, Fin 1, Fin 1])
             short_y 2 [1] (col_mat [0, 0, 0]) (fit_xtreg ?ft) = Some short_errors"
    using short_errorer_value by (simp add: short_errorer_def)
  have h: "2 \<le> length short_y" "length short_y < 2 ^ 32"
    by (simp_all add: short_y_length)
  show "short_cost ''TLV'' = Some (trace_sum dlog short_errors 2 (\<lambda>h. 3 - h + 1))"
    unfolding short_cost_def ssoptimizer_trace_value(1)[OF f e h] short_y_length by (rule refl)
  show "short_cost ''TV'' = Some (trace_sum (\<lambda>m. m) short_errors 2 (\<lambda>h. 3 - h + 1))"
    unfolding short_cost_def ssoptimizer_trace_value(2)[OF f e h] short_y_length by (rule refl)
qed

lemma trace_sum_two:
  "trace_sum f E 2 rows
   = 0 + f (mean_value (map square (col_prefix E 0 (rows 1))))
       + f (mean_value (map square (col_prefix E 1 (rows 2))))"
proof -
  have "[1..<Suc 2] = [1, 2 :: nat]" by code_simp
  then show ?thesis by (simp add: trace_sum_def)
qed

lemma short_means:
  "mean_value (map square (col_prefix short_errors 0 3)) = Fin (86861 / 30000)"
  "mean_value (map square (col_prefix short_errors 1 2)) = Fin (1129 / 200)"
  "mean_value (map square (col_prefix short_errors 0 2)) = Fin (389 / 200)"
  "mean_value (map square (col_prefix short_errors 1 1)) = Fin 4"
  by code_simp+

lemma short_trace_sums:
  "trace_sum f short_errors 2 (\<lambda>h. 3 - h + 1) = 0 + f (Fin (86861 / 30000)) + f (Fin (1129 / 200))"
  "trace_sum f short_errors 2 (\<lambda>h. 3 - h) = 0 + f (Fin (389 / 200)) + f (Fin 4)"
proof -
  have r: "(3 :: nat) - 1 + 1 = 3" "(3 :: nat) - 2 + 1 = 2"
    by simp_all
  have r': "(3 :: nat) - 1 = 2" "(3 :: nat) - 2 = 1"
    by simp_all
  show "trace_sum f short_errors 2 (\<lambda>h. 3 - h + 1) = 0 + f (Fin (86861 / 30000)) + f (Fin (1129 / 200))"
    unfolding trace_sum_two r short_means by (rule refl)
  show "trace_sum f short_errors 2 (\<lambda>h. 3 - h) = 0 + f (Fin (389 / 200)) + f (Fin 4)"
    unfolding trace_sum_two r' short_means by (rule refl)
qed

section \<open>Substitution, blocks and the error evaluator\<close>

subsection \<open>What the substitution writes\<close>

lemma fold_update_other:
  assumes "p \<notin> unat ` set idx"
  shows "fold (\<lambda>(j, x) m. m[unat j := x]) (zip idx vals) m0 ! p = m0 ! p"
  using assms
proof (induction idx arbitrary: vals m0)
  case Nil
  then show ?case by simp
next
  case (Cons a rest)
  show ?case
  proof (cases vals)
    case Nil
    then show ?thesis by simp
  next
    case (Cons v vs)
    then show ?thesis using Cons.IH[of vs "m0[unat a := v]"] Cons.prems by simp
  qed
qed

lemma fold_update_length:
  "length (fold (\<lambda>(j, x) m. m[unat j := x]) (zip idx vals) m0) = length m0"
proof (induction idx arbitrary: vals m0)
  case Nil
  then show ?case by simp
next
  case (Cons a rest)
  then show ?case by (cases vals) simp_all
qed

lemma fold_update_hit:
  assumes "distinct (map unat idx)" "q < length idx" "length vals = length idx"
    and "\<forall>j \<in> set idx. unat j < length m0"
  shows "fold (\<lambda>(j, x) m. m[unat j := x]) (zip idx vals) m0 ! unat (idx ! q) = vals ! q"
  using assms
proof (induction idx arbitrary: vals m0 q)
  case Nil
  then show ?case by simp
next
  case (Cons a rest)
  then obtain v vs where vals: "vals = v # vs" by (cases vals) auto
  show ?case
  proof (cases q)
    case 0
    have "unat a \<notin> unat ` set rest" using Cons.prems(1) by auto
    then have "fold (\<lambda>(j, x) m. m[unat j := x]) (zip rest vs) (m0[unat a := v]) ! unat a
               = (m0[unat a := v]) ! unat a"
      by (rule fold_update_other)
    then show ?thesis using 0 vals Cons.prems(4) by simp
  next
    case (Suc q')
    have "fold (\<lambda>(j, x) m. m[unat j := x]) (zip rest vs) (m0[unat a := v]) ! unat (rest ! q')
          = vs ! q'"
      using Cons.prems Suc vals by (intro Cons.IH) simp_all
    then show ?thesis using Suc vals by simp
  qed
qed

lemma find_nonfinite_unat:
  assumes "n_elem M < 2 ^ 32"
  shows "map unat (find_nonfinite M) = filter (\<lambda>j. \<not> is_finite (mem M ! j)) [0..<n_elem M]"
proof -
  have "map (\<lambda>j. unat (of_nat j :: uword)) (filter (\<lambda>j. \<not> is_finite (mem M ! j)) [0..<n_elem M])
        = map (\<lambda>j. j) (filter (\<lambda>j. \<not> is_finite (mem M ! j)) [0..<n_elem M])"
    using assms by (intro map_cong refl unat_of_nat32) auto
  then show ?thesis by (simp add: find_nonfinite_def comp_def)
qed

lemma subst_nonfinite_nth:
  assumes "subst_nonfinite d M = Some M'" "length (mem M) = n_elem M" "n_elem M < 2 ^ 32"
    and "p < n_elem M"
  shows "mem M' ! p = (if is_finite (mem M ! p) then mem M ! p
                        else mem M ! unat (of_nat p + d :: uword))"
proof -
  let ?idx = "find_nonfinite M"
  let ?f = "filter (\<lambda>j. \<not> is_finite (mem M ! j)) [0..<n_elem M]"
  from assms(1) obtain vals where
    vals: "mat_elem M (map (\<lambda>j. j + d) ?idx) = Some vals"
    and M': "elem_assign M ?idx vals = Some M'"
    by (auto simp: subst_nonfinite_def bind_eq_Some_conv)
  have vv: "vals = map (\<lambda>j. mem M ! unat (j + d)) ?idx"
    using vals by (auto simp: mat_elem_def comp_def split: if_splits)
  have mm: "mem M' = fold (\<lambda>(j, x) m. m[unat j := x]) (zip ?idx vals) (mem M)"
    using M' by (auto simp: elem_assign_def split: if_splits)
  note u = find_nonfinite_unat[OF assms(3)]
  show ?thesis
  proof (cases "is_finite (mem M ! p)")
    case True
    then have "p \<notin> set (map unat ?idx)" unfolding u by simp
    then have "p \<notin> unat ` set ?idx" by simp
    then show ?thesis using True unfolding mm by (simp add: fold_update_other)
  next
    case False
    then have "p \<in> set ?f" using assms(4) by simp
    then obtain q where q: "q < length ?f" "?f ! q = p"
      unfolding in_set_conv_nth by blast
    have lq: "q < length ?idx" using q(1) u by (metis length_map)
    have uq: "unat (?idx ! q) = p"
      using q lq u by (metis nth_map)
    have "(of_nat (unat (?idx ! q)) :: uword) = ?idx ! q"
      by simp
    then have iq: "?idx ! q = of_nat p"
      unfolding uq by simp
    have d: "distinct (map unat ?idx)" unfolding u by simp
    have b: "\<forall>j \<in> set ?idx. unat j < length (mem M)"
      using find_nonfinite_in_bounds[OF assms(3)] assms(2) by simp
    have "mem M' ! unat (?idx ! q) = vals ! q"
      unfolding mm using d lq b by (intro fold_update_hit) (simp_all add: vv)
    then show ?thesis using False uq iq lq by (simp add: vv)
  qed
qed

lemma subst_nonfinite_length:
  assumes "subst_nonfinite d M = Some M'"
  shows "length (mem M') = length (mem M)"
  using assms
  by (auto simp: subst_nonfinite_def bind_eq_Some_conv elem_assign_def fold_update_length
      split: if_splits)

subsection \<open>Blocks of a matrix\<close>

lemma entry_in_bounds: "r < R \<Longrightarrow> c < C \<Longrightarrow> r + c * R < R * (C :: nat)"
proof -
  assume a: "r < R" "c < C"
  have "r + c * R < R + c * R" using a(1) by simp
  also have "\<dots> = R * Suc c" by simp
  also have "\<dots> \<le> R * C" using a(2) by (intro mult_le_mono2) simp
  finally show ?thesis .
qed

lemma entry_mod_div: "r < R \<Longrightarrow> (r + c * R) mod R = r \<and> (r + c * R) div R = (c :: nat)"
  by simp

lemma block_dims [simp]:
  "n_rows (block M r1 c1 nr nc) = nr" "n_cols (block M r1 c1 nr nc) = nc"
  "n_elem (block M r1 c1 nr nc) = nr * nc"
  by (simp_all add: block_def n_elem_def)

lemma block_entry:
  assumes "r < nr" "c < nc"
  shows "mem (block M r1 c1 nr nc) ! (r + c * nr) = mem M ! ((r1 + r) + (c1 + c) * n_rows M)"
  using entry_in_bounds[OF assms] assms(1) by (simp add: block_def)

lemma row_of_block:
  assumes "r < nr"
  shows "row_of (block M r1 0 nr (n_cols M)) r = row_of M (r1 + r)"
  using assms by (simp add: row_of_def block_entry)

lemma put_block_dims [simp]:
  "n_rows (put_block M r1 c1 B) = n_rows M" "n_cols (put_block M r1 c1 B) = n_cols M"
  "n_elem (put_block M r1 c1 B) = n_elem M"
  by (simp_all add: put_block_def n_elem_def)

lemma put_block_entry:
  assumes "r < n_rows M" "c < n_cols M"
  shows "mem (put_block M r1 c1 B) ! (r + c * n_rows M)
         = (if r1 \<le> r \<and> r < r1 + n_rows B \<and> c1 \<le> c \<and> c < c1 + n_cols B
            then mem B ! ((r - r1) + (c - c1) * n_rows B) else mem M ! (r + c * n_rows M))"
  using entry_in_bounds[OF assms] assms(1) by (simp add: put_block_def n_elem_def)

subsection \<open>Word indices of the error evaluator\<close>

lemma of_nat_minus_maxlag:
  fixes maxlag :: uword
  assumes "unat maxlag \<le> i"
  shows "of_nat i - maxlag = (of_nat (i - unat maxlag) :: uword)"
proof -
  have "(of_nat (i - unat maxlag) :: uword) = of_nat i - of_nat (unat maxlag)"
    using assms by (simp add: of_nat_diff)
  then show ?thesis by simp
qed

lemma unat_last_index:
  assumes "0 < n" "t + n \<le> 2 ^ 32"
  shows "unat (of_nat t + of_nat n - 1 :: uword) = t + n - 1"
proof -
  have "(of_nat t + of_nat n - 1 :: uword) = of_nat (t + n) - 1" by simp
  also have "\<dots> = of_nat (t + n - 1)" using assms(1) by (intro of_nat_pred32) simp
  finally have e: "(of_nat t + of_nat n - 1 :: uword) = of_nat (t + n - 1)" .
  have "t + n - 1 < 2 ^ 32" using assms by simp
  then show ?thesis unfolding e by (rule unat_of_nat32)
qed

lemma unat_pred_index:
  assumes "0 < n" "n \<le> 2 ^ 32"
  shows "unat (of_nat n - 1 :: uword) = n - 1"
  using unat_last_index[of n 0] assms by simp

subsection \<open>One origin of the error evaluator\<close>

lemma errorer_body_Some:
  assumes b: "errorer_body matrixxt matrixF matrixw matyt hor lags maxlag wex xtreg i E = Some E'"
    and m: "0 < unat maxlag" "unat maxlag \<le> i"
    and i: "i < length matyt + unat maxlag" "length matyt + unat maxlag < 2 ^ 32"
    and h: "0 < hor"
  shows "\<exists>f. origin_forecast matrixxt matrixF matrixw lags wex xtreg (unat maxlag)
                (filled_columns hor (length matyt) (i - unat maxlag)) (i - unat maxlag) = Some f \<and>
              length f = filled_columns hor (length matyt) (i - unat maxlag) \<and>
              E' = put_block E (i - unat maxlag) 0
                     (row_mat (map2 (-) (take (filled_columns hor (length matyt) (i - unat maxlag))
                                            (drop (i - unat maxlag) matyt)) f))"
proof -
  let ?t = "i - unat maxlag"
  let ?hh = "filled_columns hor (length matyt) ?t"
  have hh: "min hor (length matyt + unat maxlag - i) = ?hh"
    using m(2) by (simp add: filled_columns_def)
  have hpos: "0 < ?hh" and hle: "?t + ?hh \<le> length matyt"
    using h i(1) m(2) by (auto simp: filled_columns_def)
  have tw: "of_nat i - maxlag = (of_nat ?t :: uword)"
    using m(2) by (rule of_nat_minus_maxlag)
  have ut: "unat (of_nat ?t :: uword) = ?t"
    using i by (intro unat_of_nat32) simp
  have ul: "unat (of_nat ?t + of_nat ?hh - 1 :: uword) = ?t + ?hh - 1"
    using hpos hle i(2) by (intro unat_last_index) simp_all
  have ui: "unat (of_nat i - 1 :: uword) = i - 1"
    using m i by (intro unat_pred_index) simp_all
  have uh: "unat (of_nat ?hh - 1 :: uword) = ?hh - 1"
    using hpos hle i(2) by (intro unat_pred_index) simp_all
  have n1: "?t + ?hh - 1 - ?t + 1 = ?hh" using hpos by simp
  have n2: "i - 1 - ?t + 1 = unat maxlag" using m by simp
  have n3: "?hh - 1 - unat (0 :: uword) + 1 = ?hh" using hpos by simp
  from b obtain ys xs ws wexs xtregs f d where
    ys: "vec_rows matyt (of_nat ?t) (of_nat ?t + of_nat ?hh - 1) = Some ys"
    and xs: "mat_rows matrixxt (of_nat ?t) (of_nat i - 1) = Some xs"
    and ws: "mat_rows matrixw (of_nat ?t) (of_nat ?t + of_nat ?hh - 1) = Some ws"
    and wexs: "mat_rows wex (of_nat ?t) (of_nat ?t + of_nat ?hh - 1) = Some wexs"
    and xtregs: "mat_rows xtreg (of_nat ?t) (of_nat ?t + of_nat ?hh - 1) = Some xtregs"
    and f: "ssforecaster xs matrixF ws ?hh lags wexs xtregs = Some f"
    and d: "vec_sub ys f = Some d"
    and E': "assign_submat E (of_nat ?t) 0 (of_nat ?t) (of_nat ?hh - 1) (row_mat d) = Some E'"
    unfolding errorer_body_def Let_def hh tw by (auto simp: bind_eq_Some_conv)
  have ysv: "ys = take ?hh (drop ?t matyt)"
    using ys unfolding vec_rows_def ut ul n1 by (simp split: if_splits)
  have xsv: "xs = block matrixxt ?t 0 (unat maxlag) (n_cols matrixxt)"
    using xs unfolding mat_rows_def ut ui n2 by (simp split: if_splits)
  have wsv: "ws = block matrixw ?t 0 ?hh (n_cols matrixw)"
    using ws unfolding mat_rows_def ut ul n1 by (simp split: if_splits)
  have wexsv: "wexs = block wex ?t 0 ?hh (n_cols wex)"
    using wexs unfolding mat_rows_def ut ul n1 by (simp split: if_splits)
  have xtregsv: "xtregs = block xtreg ?t 0 ?hh (n_cols xtreg)"
    using xtregs unfolding mat_rows_def ut ul n1 by (simp split: if_splits)
  have of: "origin_forecast matrixxt matrixF matrixw lags wex xtreg (unat maxlag) ?hh ?t = Some f"
    using f unfolding origin_forecast_def xsv wsv wexsv xtregsv .
  have ly: "length ys = ?hh" using hle unfolding ysv by simp
  have dv: "d = map2 (-) ys f" and lf: "length f = ?hh"
    using d ly by (auto simp: vec_sub_def split: if_splits)
  have "E' = put_block E ?t 0 (row_mat d)"
    using E' unfolding assign_submat_def ut by (simp split: if_splits)
  then show ?thesis using of lf dv ysv by blast
qed

lemma errorer_body_entry:
  assumes b: "errorer_body matrixxt matrixF matrixw matyt hor lags maxlag wex xtreg i E = Some E'"
    and m: "0 < unat maxlag" "unat maxlag \<le> i"
    and i: "i < length matyt + unat maxlag" "length matyt + unat maxlag < 2 ^ 32"
    and e: "n_rows E = length matyt" "n_cols E = hor"
    and rc: "r < length matyt" "c < hor"
  shows "r \<noteq> i - unat maxlag \<Longrightarrow>
           mem E' ! (r + c * length matyt) = mem E ! (r + c * length matyt)"
    and "r = i - unat maxlag \<Longrightarrow>
           \<exists>f. origin_forecast matrixxt matrixF matrixw lags wex xtreg (unat maxlag)
                  (filled_columns hor (length matyt) r) r = Some f \<and>
                length f = filled_columns hor (length matyt) r \<and>
                mem E' ! (r + c * length matyt)
                  = (if c < filled_columns hor (length matyt) r then matyt ! (r + c) - f ! c
                     else mem E ! (r + c * length matyt))"
proof -
  let ?t = "i - unat maxlag"
  let ?hh = "filled_columns hor (length matyt) ?t"
  have h: "0 < hor" using rc(2) by simp
  from errorer_body_Some[OF b m i h] obtain f where
    f: "origin_forecast matrixxt matrixF matrixw lags wex xtreg (unat maxlag) ?hh ?t = Some f"
    and lf: "length f = ?hh"
    and E': "E' = put_block E ?t 0 (row_mat (map2 (-) (take ?hh (drop ?t matyt)) f))"
    by blast
  have hle: "?t + ?hh \<le> length matyt"
    using i(1) m(2) by (auto simp: filled_columns_def)
  have en: "mem E' ! (r + c * length matyt)
            = (if ?t \<le> r \<and> r < ?t + 1 \<and> c < ?hh
               then map2 (-) (take ?hh (drop ?t matyt)) f ! c
               else mem E ! (r + c * length matyt))"
    unfolding E' using put_block_entry[of r E c ?t 0] rc e lf hle
    by (simp add: row_mat_def)
  show "r \<noteq> ?t \<Longrightarrow> mem E' ! (r + c * length matyt) = mem E ! (r + c * length matyt)"
    unfolding en by auto
  show "\<exists>f. origin_forecast matrixxt matrixF matrixw lags wex xtreg (unat maxlag)
                  (filled_columns hor (length matyt) r) r = Some f \<and>
                length f = filled_columns hor (length matyt) r \<and>
                mem E' ! (r + c * length matyt)
                  = (if c < filled_columns hor (length matyt) r then matyt ! (r + c) - f ! c
                     else mem E ! (r + c * length matyt))" if r: "r = ?t"
  proof -
    have "map2 (-) (take ?hh (drop ?t matyt)) f ! c = matyt ! (?t + c) - f ! c" if "c < ?hh"
      using that lf hle by simp
    then have "mem E' ! (r + c * length matyt)
               = (if c < ?hh then matyt ! (?t + c) - f ! c else mem E ! (r + c * length matyt))"
      unfolding en using r by simp
    then show ?thesis using f lf unfolding r by blast
  qed
qed

subsection \<open>The matrix of errors\<close>

lemma sserrorer_entry:
  assumes E: "sserrorer matrixxt matrixF matrixw matyt hor lags wex xtreg = Some E"
    and mx: "max_uvec lags = Some maxlag" "0 < unat maxlag"
    and sz: "length matyt + unat maxlag < 2 ^ 32"
    and tc: "t < length matyt" "c < hor"
  shows "\<exists>f. origin_forecast matrixxt matrixF matrixw lags wex xtreg (unat maxlag)
                (filled_columns hor (length matyt) t) t = Some f \<and>
              length f = filled_columns hor (length matyt) t \<and>
              mem E ! (t + c * length matyt)
                = (if c < filled_columns hor (length matyt) t then matyt ! (t + c) - f ! c
                   else NA_REAL)"
proof -
  let ?obs = "length matyt"
  let ?m = "unat maxlag"
  let ?body = "errorer_body matrixxt matrixF matrixw matyt hor lags maxlag wex xtreg"
  let ?i = "t + ?m"
  let ?dims = "\<lambda>M. n_rows M = ?obs \<and> n_cols M = hor"
  have split: "[?m..<?obs + ?m] = [?m..<?i] @ ?i # [Suc ?i..<?obs + ?m]"
    using tc(1) by (intro upt_split_at) simp_all
  from E mx(1) have "for_each ([?m..<?i] @ ?i # [Suc ?i..<?obs + ?m]) ?body
                       (filled ?obs hor NA_REAL) = Some E"
    unfolding sserrorer_def split[symmetric] by simp
  then obtain Ea Eb where
    a: "for_each [?m..<?i] ?body (filled ?obs hor NA_REAL) = Some Ea"
    and b: "?body ?i Ea = Some Eb"
    and tl: "for_each [Suc ?i..<?obs + ?m] ?body Eb = Some E"
    by (auto simp: for_each_append bind_eq_Some_conv)
  have idx: "t + c * ?obs < ?obs * hor"
    using tc by (rule entry_in_bounds)
  have pa: "?dims Ea \<and> mem Ea ! (t + c * ?obs) = NA_REAL"
  proof (rule for_each_invariant[OF a])
    show "?dims (filled ?obs hor NA_REAL) \<and> mem (filled ?obs hor NA_REAL) ! (t + c * ?obs) = NA_REAL"
      using idx by (simp add: filled_def)
  next
    fix j M M'
    assume j: "j \<in> set [?m..<?i]" and M: "?dims M \<and> mem M ! (t + c * ?obs) = NA_REAL"
      and s: "?body j M = Some M'"
    have "t \<noteq> j - ?m" using j by auto
    then have "mem M' ! (t + c * ?obs) = mem M ! (t + c * ?obs)"
      using errorer_body_entry(1)[OF s mx(2) _ _ sz _ _ tc] j M tc(1) by simp
    then show "?dims M' \<and> mem M' ! (t + c * ?obs) = NA_REAL"
      using M errorer_body_dims[OF s] by simp
  qed
  have ti: "t = ?i - ?m" by simp
  from errorer_body_entry(2)[OF b mx(2) _ _ sz _ _ tc ti] pa tc(1)
  obtain f where
    f: "origin_forecast matrixxt matrixF matrixw lags wex xtreg ?m
          (filled_columns hor ?obs t) t = Some f"
    and lf: "length f = filled_columns hor ?obs t"
    and eb: "mem Eb ! (t + c * ?obs)
             = (if c < filled_columns hor ?obs t then matyt ! (t + c) - f ! c else NA_REAL)"
    by auto
  have "?dims E \<and> mem E ! (t + c * ?obs) = mem Eb ! (t + c * ?obs)"
  proof (rule for_each_invariant[OF tl])
    show "?dims Eb \<and> mem Eb ! (t + c * ?obs) = mem Eb ! (t + c * ?obs)"
      using pa errorer_body_dims[OF b] by simp
  next
    fix j M M'
    assume j: "j \<in> set [Suc ?i..<?obs + ?m]"
      and M: "?dims M \<and> mem M ! (t + c * ?obs) = mem Eb ! (t + c * ?obs)"
      and s: "?body j M = Some M'"
    have "t \<noteq> j - ?m" using j by auto
    then have "mem M' ! (t + c * ?obs) = mem M ! (t + c * ?obs)"
      using errorer_body_entry(1)[OF s mx(2) _ _ sz _ _ tc] j M by simp
    then show "?dims M' \<and> mem M' ! (t + c * ?obs) = mem Eb ! (t + c * ?obs)"
      using M errorer_body_dims[OF s] by simp
  qed
  then show ?thesis using f lf eb by auto
qed


section \<open>The round of the filter in the words of the specification\<close>

lemma ssfitter_round:
  assumes "ssfitter matrixxt matrixF matrixw matrixv matyt matg lags wex xtreg = Some r"
    and "max_uvec lags = Some maxlag" "unat maxlag \<le> i" "i < n_rows matrixxt"
    and "n_rows matrixxt * length lags < 2 ^ 32"
  shows "\<exists>s s' m1.
           ssfitter_loop matrixxt matrixF matrixw matrixv matyt matg lags wex xtreg i = Some s \<and>
           ssfitter_loop matrixxt matrixF matrixw matrixv matyt matg lags wex xtreg (Suc i) = Some s' \<and>
           fit_yfit r ! (i - unat maxlag)
             = fitted_value matrixw wex xtreg (i - unat maxlag) (lagged_state (xt s) lags i) \<and>
           fit_errors r ! (i - unat maxlag)
             = matyt ! (i - unat maxlag) - fit_yfit r ! (i - unat maxlag) \<and>
           set_row (xt s) i
             (new_state_row matrixF matrixv matg (i - unat maxlag) (lagged_state (xt s) lags i)
                (fit_errors r ! (i - unat maxlag))) = Some m1 \<and>
           row_of m1 i
             = new_state_row matrixF matrixv matg (i - unat maxlag) (lagged_state (xt s) lags i)
                (fit_errors r ! (i - unat maxlag)) \<and>
           subst_prev m1 = Some (xt s')"
proof -
  let ?t = "i - unat maxlag"
  let ?L = "offset_lags (n_rows matrixxt) maxlag lags"
  from assms(1) obtain sn where
    sn: "ssfitter_loop matrixxt matrixF matrixw matrixv matyt matg lags wex xtreg (n_rows matrixxt)
         = Some sn"
    and r: "fit_yfit r = fitv sn" "fit_errors r = errv sn"
    by (auto simp: ssfitter_def bind_eq_Some_conv)
  from ssfitter_loop_step[OF assms(2,3,4) sn] obtain s s' where
    s: "ssfitter_loop matrixxt matrixF matrixw matrixv matyt matg lags wex xtreg i = Some s"
    and b: "ssfitter_body matrixF matrixw matrixv matyt matg ?L maxlag wex xtreg i s = Some s'"
    and s': "ssfitter_loop matrixxt matrixF matrixw matrixv matyt matg lags wex xtreg (Suc i) = Some s'"
    and tl: "for_each [Suc i..<n_rows matrixxt]
               (ssfitter_body matrixF matrixw matrixv matyt matg ?L maxlag wex xtreg) s' = Some sn"
    by blast
  have rows: "n_rows (xt s) = n_rows matrixxt"
    using ssfitter_loop_rows[OF s] by simp
  have g: "map (\<lambda>j. mem (xt s) ! unat j) (lagrows_at ?L maxlag i) = lagged_state (xt s) lags i"
    using gather_forward[of lags maxlag i "xt s"] assms(2,3,4,5) rows by simp
  note f = filter_step_Some[OF b[unfolded ssfitter_body_def], unfolded g]
  have keep: "fitv sn ! ?t = fitv s' ! ?t" "errv sn ! ?t = errv s' ! ?t"
    using ssfitter_tail_keeps[OF tl assms(3)] by simp_all
  have fv: "fit_yfit r ! ?t = fitted_value matrixw wex xtreg ?t (lagged_state (xt s) lags i)"
    using f(1,3) keep(1) r(1) by (simp add: fitted_value_def)
  have ev: "fit_errors r ! ?t = matyt ! ?t - fit_yfit r ! ?t"
    using f(2,4) keep r by simp
  from f(5) obtain m1 where
    m1: "set_row (xt s) i
           (new_state_row matrixF matrixv matg ?t (lagged_state (xt s) lags i) (errv s' ! ?t))
         = Some m1"
    and m2: "subst_nonfinite (- 1) m1 = Some (xt s')"
    unfolding new_state_row_def by blast
  have e: "errv s' ! ?t = fit_errors r ! ?t"
    using keep(2) r(2) by simp
  have "row_of m1 i
        = new_state_row matrixF matrixv matg ?t (lagged_state (xt s) lags i) (errv s' ! ?t)"
    using m1 put_row_row by (auto simp: set_row_def split: if_splits)
  then show ?thesis
    using s s' fv ev m1 m2 unfolding e subst_prev_def by blast
qed

subsection \<open>Rows that the filter has written stay as they are\<close>

lemma rows_finite_iff:
  "rows_finite M n \<longleftrightarrow> (\<forall>r < n. \<forall>c < n_cols M. is_finite (mem M ! (r + c * n_rows M)))"
  by (auto simp: rows_finite_def list_all_iff)

lemma filter_step_stable:
  assumes st: "filter_step (- 1) matrixF matrixw matrixv wex xtreg matyt matg lagrows t i s = Some s'"
    and inv: "rows_finite (xt s) i" and i: "0 < i" "i < n_rows (xt s)"
    and sz: "n_elem (xt s) < 2 ^ 32"
  shows "rows_finite (xt s') (Suc i)"
    and "r < i \<Longrightarrow> c < n_cols (xt s) \<Longrightarrow>
         mem (xt s') ! (r + c * n_rows (xt s)) = mem (xt s) ! (r + c * n_rows (xt s))"
proof -
  let ?R = "n_rows (xt s)" and ?C = "n_cols (xt s)"
  from filter_step_Some(5)[OF st] obtain row m1 where
    m1: "set_row (xt s) i row = Some m1" and sub: "subst_nonfinite (- 1) m1 = Some (xt s')"
    by blast
  have m1v: "m1 = put_row (xt s) i row"
    using m1 by (auto simp: set_row_def split: if_splits)
  have len: "length (mem m1) = n_elem m1" and ne: "n_elem m1 = n_elem (xt s)"
    unfolding m1v by simp_all
  note d = filter_step_frame(1,2)[OF st]
  have old: "mem m1 ! (r + c * ?R) = mem (xt s) ! (r + c * ?R)"
    if "r < ?R" "r \<noteq> i" "c < ?C" for r c
    unfolding m1v using entry_in_bounds[OF that(1,3)] that(1,2)
    by (simp add: put_row_nth n_elem_def)
  have new: "mem (xt s') ! (r + c * ?R)
             = (if is_finite (mem m1 ! (r + c * ?R)) then mem m1 ! (r + c * ?R)
                else mem m1 ! unat (of_nat (r + c * ?R) + (- 1) :: uword))"
    if "r < ?R" "c < ?C" for r c
  proof -
    have "r + c * ?R < n_elem m1" "n_elem m1 < 2 ^ 32"
      using entry_in_bounds[OF that] sz unfolding ne by (simp_all add: n_elem_def)
    then show ?thesis
      using subst_nonfinite_nth[OF sub len] by blast
  qed
  have below: "mem (xt s') ! (r + c * ?R) = mem (xt s) ! (r + c * ?R)"
    if "r < i" "c < ?C" for r c
  proof -
    have "mem m1 ! (r + c * ?R) = mem (xt s) ! (r + c * ?R)"
      using that i by (intro old) simp_all
    moreover have "is_finite (mem (xt s) ! (r + c * ?R))"
      using inv that by (simp add: rows_finite_iff)
    ultimately show ?thesis using new[of r c] that i by simp
  qed
  show "r < i \<Longrightarrow> c < ?C \<Longrightarrow> mem (xt s') ! (r + c * ?R) = mem (xt s) ! (r + c * ?R)"
    by (rule below)
  have "is_finite (mem (xt s') ! (r + c * ?R))" if "r < Suc i" "c < ?C" for r c
  proof (cases "r = i")
    case False
    then have "r < i" using that by simp
    then show ?thesis using below[of r c] inv that by (simp add: rows_finite_iff)
  next
    case True
    show ?thesis
    proof (cases "is_finite (mem m1 ! (i + c * ?R))")
      case fin: True
      then show ?thesis using new[of i c] i that True by simp
    next
      case False
      have p: "i + c * ?R < n_elem (xt s)"
        using entry_in_bounds[OF i(2) that(2)] by (simp add: n_elem_def)
      obtain j where j: "i = Suc j" using i(1) by (cases i) auto
      have "unat (of_nat (i + c * ?R) + (- 1) :: uword) = j + c * ?R"
        using unat_prev_index[OF sz p] j by simp
      moreover have "mem m1 ! (j + c * ?R) = mem (xt s) ! (j + c * ?R)"
        using that i j by (intro old) simp_all
      moreover have "is_finite (mem (xt s) ! (j + c * ?R))"
        using inv that j unfolding rows_finite_iff by blast
      ultimately have "is_finite (mem m1 ! unat (of_nat (i + c * ?R) + (- 1) :: uword))"
        by simp
      then show ?thesis using new[OF i(2) that(2)] False True by simp
    qed
  qed
  then show "rows_finite (xt s') (Suc i)"
    using d by (simp add: rows_finite_iff)
qed

lemma filter_loop_stable:
  assumes "for_each [a..<b]
             (ssfitter_body matrixF matrixw matrixv matyt matg lags maxlag wex xtreg) s = Some s'"
    and "rows_finite (xt s) a" "0 < a" "a \<le> b" "b \<le> n_rows (xt s)" "n_elem (xt s) < 2 ^ 32"
  shows "n_rows (xt s') = n_rows (xt s) \<and> n_cols (xt s') = n_cols (xt s) \<and>
         rows_finite (xt s') b \<and>
         (\<forall>r < a. \<forall>c < n_cols (xt s).
            mem (xt s') ! (r + c * n_rows (xt s)) = mem (xt s) ! (r + c * n_rows (xt s)))"
  using assms
proof (induction "b - a" arbitrary: a s)
  case 0
  then show ?case by simp
next
  case (Suc n)
  let ?body = "ssfitter_body matrixF matrixw matrixv matyt matg lags maxlag wex xtreg"
  have ab: "a < b" using Suc.hyps(2) by simp
  then have "[a..<b] = a # [Suc a..<b]" by (simp add: upt_conv_Cons)
  with Suc.prems(1) obtain s1 where
    s1: "?body a s = Some s1" and tl: "for_each [Suc a..<b] ?body s1 = Some s'"
    by (auto simp: bind_eq_Some_conv)
  note st = s1[unfolded ssfitter_body_def]
  have ar: "a < n_rows (xt s)" using ab Suc.prems(5) by simp
  note d = filter_step_frame(1,2)[OF st]
  note f1 = filter_step_stable(1)[OF st Suc.prems(2,3) ar Suc.prems(6)]
  note f2 = filter_step_stable(2)[OF st Suc.prems(2,3) ar Suc.prems(6)]
  have ne: "n_elem (xt s1) < 2 ^ 32"
    using Suc.prems(6) d by (simp add: n_elem_def)
  have ih: "n_rows (xt s') = n_rows (xt s1) \<and> n_cols (xt s') = n_cols (xt s1) \<and>
            rows_finite (xt s') b \<and>
            (\<forall>r < Suc a. \<forall>c < n_cols (xt s1).
               mem (xt s') ! (r + c * n_rows (xt s1)) = mem (xt s1) ! (r + c * n_rows (xt s1)))"
    using Suc.hyps(2) ab Suc.prems(5) d ne by (intro Suc.hyps(1)[OF _ tl f1]) simp_all
  show ?case
    using ih d f2 by auto
qed

subsection \<open>The forecast of one step\<close>

lemma max_uvec_positive:
  assumes "max_uvec lags = Some maxlag" "\<forall>l \<in> set lags. 0 < unat l"
  shows "0 < unat maxlag"
proof -
  from assms(1) obtain l where l: "l \<in> set lags" by (cases lags) auto
  then have "unat l \<le> unat maxlag"
    using max_uvec_ge[OF assms(1)] by (simp add: word_le_nat_alt)
  then show ?thesis using assms(2) l by fastforce
qed

lemma length_lagrows [simp]:
  "length (lagrows_at (offset_lags rows maxlag lags) maxlag i) = length lags"
  by (simp add: lagrows_at_def offset_lags_def add_offsets_def reverse_lags_def)

lemma put_row_entry:
  assumes "r < n_rows M" "c < n_cols M"
  shows "mem (put_row M i row) ! (r + c * n_rows M)
         = (if r = i then row ! c else mem M ! (r + c * n_rows M))"
  using entry_in_bounds[OF assms] assms(1) by (simp add: put_row_nth n_elem_def)

lemma filled_dims [simp]:
  "n_rows (filled r c x) = r" "n_cols (filled r c x) = c" "n_elem (filled r c x) = r * c"
  by (simp_all add: filled_def n_elem_def)

lemma ssforecaster_Some:
  assumes "ssforecaster matrixxt matrixF matrixw hor lags wex xtreg = Some f"
    and "max_uvec lags = Some maxlag"
  obtains init m0 s where
    "submat matrixxt 0 0 (maxlag - 1) (of_nat (n_cols matrixxt) - 1) = Some init"
    "assign_submat (filled (hor + unat maxlag) (n_cols matrixxt) 0) 0 0 (maxlag - 1)
       (of_nat (n_cols matrixxt) - 1) init = Some m0"
    "for_each [unat maxlag..<hor + unat maxlag]
       (forecast_body matrixF matrixw wex xtreg (offset_lags (hor + unat maxlag) maxlag lags) maxlag)
       \<lparr>xtnew = m0, yfor = replicate hor 0\<rparr> = Some s"
    "f = yfor s"
  using assms by (auto simp: ssforecaster_def Let_def bind_eq_Some_conv)

lemma forecast_body_Some:
  assumes "forecast_body matrixF matrixw wex xtreg lags maxlag i s = Some s'"
  obtains x where
    "set_row (xtnew s) i (mat_vec matrixF x) = Some (xtnew s')"
    "yfor s' = (yfor s)[i - unat maxlag :=
        dot (row_of matrixw (i - unat maxlag))
          (map (\<lambda>j. mem (xtnew s') ! unat j) (lagrows_at lags maxlag i))
        + dot (row_of wex (i - unat maxlag)) (row_of xtreg (i - unat maxlag))]"
    "i - unat maxlag < length (yfor s)"
    "\<forall>j \<in> set (lagrows_at lags maxlag i). unat j < n_elem (xtnew s')"
  using assms
  by (auto simp: forecast_body_def bind_eq_Some_conv mat_times_col_def mat_elem_def mat_row_def
      row_times_col_def vec_set_def list_all_iff split: if_splits)

lemma origin_forecast_one:
  assumes f: "origin_forecast matrixxt matrixF matrixw lags wex xtreg (unat maxlag) 1 t = Some f"
    and mx: "max_uvec lags = Some maxlag"
    and pos: "\<forall>l \<in> set lags. 0 < unat l"
    and cols: "length lags \<le> n_cols matrixxt" "n_cols matrixxt < 2 ^ 32"
    and sz: "(1 + unat maxlag) * length lags < 2 ^ 32"
  shows "f = [fitted_value matrixw wex xtreg t (lagged_state matrixxt lags (t + unat maxlag))]"
proof -
  let ?m = "unat maxlag" and ?C = "n_cols matrixxt"
  let ?hh = "1 + unat maxlag"
  let ?xs = "block matrixxt t 0 ?m ?C"
  let ?ws = "block matrixw t 0 1 (n_cols matrixw)"
  let ?wexs = "block wex t 0 1 (n_cols wex)"
  let ?xtregs = "block xtreg t 0 1 (n_cols xtreg)"
  let ?new0 = "filled ?hh ?C 0"
  let ?L = "lagrows_at (offset_lags ?hh maxlag lags) maxlag ?m"
  have mpos: "0 < ?m" using mx pos by (rule max_uvec_positive)
  from f have f': "ssforecaster ?xs matrixF ?ws 1 lags ?wexs ?xtregs = Some f"
    by (simp add: origin_forecast_def)
  from ssforecaster_Some[OF f' mx] obtain init m0 s where
    init: "submat ?xs 0 0 (maxlag - 1) (of_nat (n_cols ?xs) - 1) = Some init"
    and m0: "assign_submat (filled (1 + ?m) (n_cols ?xs) 0) 0 0 (maxlag - 1)
               (of_nat (n_cols ?xs) - 1) init = Some m0"
    and s: "for_each [?m..<1 + ?m]
              (forecast_body matrixF ?ws ?wexs ?xtregs (offset_lags ?hh maxlag lags) maxlag)
              \<lparr>xtnew = m0, yfor = replicate 1 0\<rparr> = Some s"
    and fs: "f = yfor s"
    by blast
  have cx: "n_cols ?xs = ?C" by simp
  have um: "unat (maxlag - 1) = ?m - 1"
    using mpos by (intro unat_minus_one) auto
  have cpos: "0 < ?C"
    using init unfolding cx by (auto simp: submat_def split: if_splits)
  have uc: "unat (of_nat ?C - 1 :: uword) = ?C - 1"
    using cpos cols(2) by (intro unat_pred_index) simp_all
  have n1: "?m - 1 - unat (0 :: uword) + 1 = ?m" "?C - 1 - unat (0 :: uword) + 1 = ?C"
    using mpos cpos by simp_all
  have initv: "init = block ?xs 0 0 ?m ?C"
    using init unfolding cx submat_def um uc n1 by (simp split: if_splits)
  have m0v: "m0 = put_block ?new0 0 0 init"
    using m0 unfolding cx assign_submat_def by (simp split: if_splits)
  have m0d: "n_rows m0 = ?hh" "n_cols m0 = ?C" "n_elem m0 = ?hh * ?C"
    unfolding m0v by simp_all
  have "for_each [?m..<1 + ?m]
          (forecast_body matrixF ?ws ?wexs ?xtregs (offset_lags ?hh maxlag lags) maxlag)
          \<lparr>xtnew = m0, yfor = replicate 1 0\<rparr>
        = forecast_body matrixF ?ws ?wexs ?xtregs (offset_lags ?hh maxlag lags) maxlag ?m
            \<lparr>xtnew = m0, yfor = replicate 1 0\<rparr>"
    by (simp add: bind_for_each_Nil)
  then have b: "forecast_body matrixF ?ws ?wexs ?xtregs (offset_lags ?hh maxlag lags) maxlag ?m
                  \<lparr>xtnew = m0, yfor = replicate 1 0\<rparr> = Some s"
    using s by simp
  from forecast_body_Some[OF b] obtain x where
    mm: "set_row m0 ?m (mat_vec matrixF x) = Some (xtnew s)"
    and ys: "yfor s = (replicate 1 0)[?m - ?m :=
               dot (row_of ?ws (?m - ?m)) (map (\<lambda>j. mem (xtnew s) ! unat j) ?L)
               + dot (row_of ?wexs (?m - ?m)) (row_of ?xtregs (?m - ?m))]"
    by auto
  have mmv: "xtnew s = put_row m0 ?m (mat_vec matrixF x)"
    using mm by (auto simp: set_row_def split: if_splits)
  have gather: "map (\<lambda>j. mem (xtnew s) ! unat j) ?L = lagged_state matrixxt lags (t + ?m)"
  proof (rule nth_equalityI)
    show "length (map (\<lambda>j. mem (xtnew s) ! unat j) ?L)
          = length (lagged_state matrixxt lags (t + ?m))"
      by (simp add: lagged_state_def)
  next
    fix k assume "k < length (map (\<lambda>j. mem (xtnew s) ! unat j) ?L)"
    then have k: "k < length lags" by simp
    let ?lk = "unat (lags ! k)"
    have lk: "0 < ?lk" "?lk \<le> ?m"
      using pos k max_uvec_ge[OF mx, of "lags ! k"] by (simp_all add: word_le_nat_alt)
    let ?r = "?m - ?lk"
    have r: "?r < ?m" "?r < ?hh" "?r \<noteq> ?m" using lk mpos by simp_all
    have kc: "k < ?C" using k cols(1) by simp
    have u: "unat (?L ! k) = ?r + k * ?hh"
      using sz by (intro lagrows_forward[OF mx _ _ _ k]) simp_all
    have p: "?r + k * ?hh < n_elem m0"
      unfolding m0d using entry_in_bounds[OF r(2) kc] by simp
    have e1: "mem (xtnew s) ! (?r + k * ?hh) = mem m0 ! (?r + k * ?hh)"
      using put_row_entry[of ?r m0 k ?m "mat_vec matrixF x"] r kc unfolding mmv m0d by simp
    have e2: "mem m0 ! (?r + k * ?hh) = mem init ! (?r + k * ?m)"
      unfolding m0v using put_block_entry[of ?r ?new0 k 0 0 init] r kc
      by (simp add: initv)
    have e3: "mem init ! (?r + k * ?m) = mem ?xs ! (?r + k * ?m)"
      unfolding initv using block_entry[OF r(1) kc, of ?xs 0 0] by simp
    have e4: "mem ?xs ! (?r + k * ?m) = mem matrixxt ! ((t + ?r) + k * n_rows matrixxt)"
      using block_entry[OF r(1) kc, of matrixxt t 0] by simp
    have e5: "t + ?r = t + ?m - ?lk" using lk by simp
    show "map (\<lambda>j. mem (xtnew s) ! unat j) ?L ! k = lagged_state matrixxt lags (t + ?m) ! k"
      using k u e1 e2 e3 e4 e5 by (simp add: lagged_state_def)
  qed
  have rw: "row_of ?ws 0 = row_of matrixw t" "row_of ?wexs 0 = row_of wex t"
    "row_of ?xtregs 0 = row_of xtreg t"
    using row_of_block[of 0 1 matrixw t] row_of_block[of 0 1 wex t] row_of_block[of 0 1 xtreg t]
    by simp_all
  have z: "?m - ?m = 0" by simp
  show ?thesis
    unfolding fs ys z gather rw fitted_value_def by simp
qed

subsection \<open>The one-step errors of the filtered state history\<close>

lemma ssfitter_lengths:
  assumes "ssfitter matrixxt matrixF matrixw matrixv matyt matg lags wex xtreg = Some r"
  shows "length (fit_errors r) = length matyt \<and> length (fit_yfit r) = length matyt \<and>
         n_rows (fit_matxt r) = n_rows matrixxt \<and> n_cols (fit_matxt r) = n_cols matrixxt"
proof -
  from assms obtain maxlag s where
    l: "for_each [unat maxlag..<n_rows matrixxt]
          (ssfitter_body matrixF matrixw matrixv matyt matg
             (offset_lags (n_rows matrixxt) maxlag lags) maxlag wex xtreg)
          \<lparr>xt = matrixxt, fitv = replicate (length matyt) 0, errv = replicate (length matyt) 0\<rparr>
        = Some s"
    and r: "r = \<lparr>fit_matxt = xt s, fit_yfit = fitv s, fit_errors = errv s, fit_xtreg = xtreg\<rparr>"
    by (auto simp: ssfitter_def ssfitter_loop_def bind_eq_Some_conv)
  have "length (errv s) = length matyt \<and> length (fitv s) = length matyt \<and>
        n_rows (xt s) = n_rows matrixxt \<and> n_cols (xt s) = n_cols matrixxt"
    by (rule for_each_invariant[OF l])
      (auto simp: ssfitter_body_def dest: filter_step_frame(1,2,3,4))
  then show ?thesis using r by simp
qed

lemma sserrorer_length:
  assumes "sserrorer matrixxt matrixF matrixw matyt hor lags wex xtreg = Some E"
  shows "length (mem E) = length matyt * hor"
proof -
  from assms obtain maxlag where
    l: "for_each [unat maxlag..<length matyt + unat maxlag]
          (errorer_body matrixxt matrixF matrixw matyt hor lags maxlag wex xtreg)
          (filled (length matyt) hor NA_REAL) = Some E"
    by (auto simp: sserrorer_def bind_eq_Some_conv)
  have "n_elem E = length matyt * hor \<and> length (mem E) = length matyt * hor"
  proof (rule for_each_invariant[OF l])
    show "n_elem (filled (length matyt) hor NA_REAL) = length matyt * hor \<and>
          length (mem (filled (length matyt) hor NA_REAL)) = length matyt * hor"
      by (simp add: filled_def n_elem_def)
  next
    fix i a b
    assume a: "n_elem a = length matyt * hor \<and> length (mem a) = length matyt * hor"
      and b: "errorer_body matrixxt matrixF matrixw matyt hor lags maxlag wex xtreg i a = Some b"
    from b obtain B r1 c1 where "b = put_block a r1 c1 B"
      by (auto simp: errorer_body_def Let_def bind_eq_Some_conv assign_submat_def split: if_splits)
    then show "n_elem b = length matyt * hor \<and> length (mem b) = length matyt * hor"
      using a by (simp add: put_block_def n_elem_def)
  qed
  then show ?thesis by simp
qed

lemma one_step_error_entry:
  assumes fit: "ssfitter matrixxt matrixF matrixw matrixv matyt matg lags wex xtreg = Some r"
    and err: "sserrorer (fit_matxt r) matrixF matrixw matyt 1 lags wex xtreg = Some E"
    and mx: "max_uvec lags = Some maxlag"
    and pos: "\<forall>l \<in> set lags. 0 < unat l"
    and rows: "n_rows matrixxt = length matyt + unat maxlag"
    and cols: "length lags \<le> n_cols matrixxt"
    and fin: "rows_finite matrixxt (unat maxlag)"
    and sz: "n_elem matrixxt < 2 ^ 32"
    and t: "t < length matyt"
  shows "mem E ! t = fit_errors r ! t"
proof -
  let ?m = "unat maxlag" and ?R = "n_rows matrixxt" and ?C = "n_cols matrixxt"
  let ?i = "t + ?m"
  let ?L = "offset_lags ?R maxlag lags"
  let ?body = "ssfitter_body matrixF matrixw matrixv matyt matg ?L maxlag wex xtreg"
  let ?s0 = "\<lparr>xt = matrixxt, fitv = replicate (length matyt) 0, errv = replicate (length matyt) 0\<rparr>"
  have mpos: "0 < ?m" using mx pos by (rule max_uvec_positive)
  have i: "?m \<le> ?i" "?i < ?R" using t rows by simp_all
  from fit obtain sn where
    sn: "ssfitter_loop matrixxt matrixF matrixw matrixv matyt matg lags wex xtreg ?R = Some sn"
    and rv: "fit_matxt r = xt sn" "fit_errors r = errv sn"
    by (auto simp: ssfitter_def bind_eq_Some_conv)
  from ssfitter_loop_step[OF mx i sn] obtain s s' where
    s: "ssfitter_loop matrixxt matrixF matrixw matrixv matyt matg lags wex xtreg ?i = Some s"
    and b: "?body ?i s = Some s'"
    and tl: "for_each [Suc ?i..<?R] ?body s' = Some sn"
    by blast
  have pre: "for_each [?m..<?i] ?body ?s0 = Some s"
    using s mx by (simp add: ssfitter_loop_def)
  have post: "for_each [?i..<?R] ?body s = Some sn"
    using b tl i(2) by (simp add: upt_conv_Cons)
  have st1: "n_rows (xt s) = ?R \<and> n_cols (xt s) = ?C \<and> rows_finite (xt s) ?i"
    using filter_loop_stable[OF pre] fin mpos i sz by simp
  then have ne: "n_elem (xt s) < 2 ^ 32" using sz by (simp add: n_elem_def)
  have st2: "n_rows (xt sn) = ?R \<and> n_cols (xt sn) = ?C \<and>
             (\<forall>r < ?i. \<forall>c < ?C. mem (xt sn) ! (r + c * ?R) = mem (xt s) ! (r + c * ?R))"
    using filter_loop_stable[OF post] st1 mpos i ne by simp
  have szl: "?R * length lags < 2 ^ 32"
  proof -
    have "?R * length lags \<le> ?R * ?C" using cols by (rule mult_le_mono2)
    moreover have "?R * ?C < 2 ^ 32" using sz by (simp add: n_elem_def)
    ultimately show ?thesis by (rule le_less_trans)
  qed
  from ssfitter_round[OF fit mx i szl] s have
    fv: "fit_yfit r ! t = fitted_value matrixw wex xtreg t (lagged_state (xt s) lags ?i)"
    and ev: "fit_errors r ! t = matyt ! t - fit_yfit r ! t"
    by auto
  have lag: "lagged_state (xt sn) lags ?i = lagged_state (xt s) lags ?i"
  proof -
    have "mem (xt sn) ! ((?i - unat (lags ! k)) + k * ?R)
          = mem (xt s) ! ((?i - unat (lags ! k)) + k * ?R)" if k: "k < length lags" for k
    proof -
      have "0 < unat (lags ! k)" using pos k by simp
      then have "?i - unat (lags ! k) < ?i" using mpos by simp
      moreover have "k < ?C" using k cols by simp
      ultimately show ?thesis using st2 by blast
    qed
    then show ?thesis using st1 st2 by (simp add: lagged_state_def)
  qed
  have sz1: "length matyt + ?m < 2 ^ 32"
  proof -
    have "0 < ?C" using cols mx by (cases lags) auto
    then have "?R \<le> ?R * ?C" by simp
    moreover have "?R * ?C < 2 ^ 32" using sz by (simp add: n_elem_def)
    ultimately have "?R < 2 ^ 32" by (rule le_less_trans)
    then show ?thesis unfolding rows .
  qed
  have sz2: "(1 + ?m) * length lags < 2 ^ 32"
  proof -
    have "(1 + ?m) * length lags \<le> ?R * length lags"
      using t rows by (intro mult_le_mono1) simp
    then show ?thesis using szl by (rule le_less_trans)
  qed
  have c1: "n_cols (fit_matxt r) < 2 ^ 32" "length lags \<le> n_cols (fit_matxt r)"
  proof -
    have "0 < ?R" using i by simp
    then have "?C \<le> ?R * ?C" by simp
    moreover have "?R * ?C < 2 ^ 32" using sz by (simp add: n_elem_def)
    ultimately have "?C < 2 ^ 32" by (rule le_less_trans)
    then show "n_cols (fit_matxt r) < 2 ^ 32"
      using st2 rv by simp
    show "length lags \<le> n_cols (fit_matxt r)" using cols st2 rv by simp
  qed
  have fc: "filled_columns 1 (length matyt) t = 1"
    using t by (simp add: filled_columns_def)
  from sserrorer_entry[OF err mx mpos sz1 t, of 0] obtain f where
    f: "origin_forecast (fit_matxt r) matrixF matrixw lags wex xtreg ?m 1 t = Some f"
    and e: "mem E ! (t + 0 * length matyt) = matyt ! (t + 0) - f ! 0"
    unfolding fc by auto
  have "f = [fitted_value matrixw wex xtreg t (lagged_state (fit_matxt r) lags ?i)]"
    using f mx pos c1(2) c1(1) sz2 by (rule origin_forecast_one)
  then have "mem E ! t = matyt ! t - fitted_value matrixw wex xtreg t (lagged_state (xt s) lags ?i)"
    using e lag rv by simp
  then show ?thesis using fv ev by simp
qed

subsection \<open>The error evaluator returns where the filter has returned\<close>

lemma for_each_succeeds:
  assumes "P s" and "\<And>i a. i \<in> set xs \<Longrightarrow> P a \<Longrightarrow> \<exists>b. body i a = Some b \<and> P b"
  shows "\<exists>s'. for_each xs body s = Some s'"
  using assms
proof (induction xs arbitrary: s)
  case Nil
  then show ?case by simp
next
  case (Cons i js)
  from Cons.prems(2)[of i s] Cons.prems(1) obtain b where b: "body i s = Some b" "P b"
    by auto
  have "\<exists>s'. for_each js body b = Some s'"
    using b(2) Cons.prems(2) by (intro Cons.IH) auto
  then show ?case using b(1) by simp
qed

lemma filter_step_shapes:
  assumes "filter_step d matrixF matrixw matrixv wex xtreg matyt matg lagrows t i s = Some s'"
  shows "t < n_rows matrixw" "n_cols matrixw = length lagrows"
    "t < n_rows wex" "t < n_rows xtreg" "n_cols wex = n_cols xtreg"
    "n_cols matrixF = length lagrows" "n_rows matrixF = n_cols (xt s)"
proof -
  from assms obtain x s1 e r m1 where
    x: "mat_elem (xt s) lagrows = Some x"
    and s1: "measure_step matrixw matyt wex xtreg t x s = Some s1"
    and r: "transition_row matrixF matrixv matg t x e = Some r"
    and m1: "set_row (xt s1) i r = Some m1"
    by (auto simp: filter_step_def bind_eq_Some_conv)
  have lx: "length x = length lagrows"
    using x by (auto simp: mat_elem_def split: if_splits)
  from s1 lx show "t < n_rows matrixw" "n_cols matrixw = length lagrows"
    "t < n_rows wex" "t < n_rows xtreg" "n_cols wex = n_cols xtreg"
    by (auto simp: measure_step_def bind_eq_Some_conv mat_row_def row_times_col_def row_of_def
        split: if_splits)
  from r lx show "n_cols matrixF = length lagrows"
    by (auto simp: transition_row_def bind_eq_Some_conv mat_times_col_def split: if_splits)
  have "length r = n_rows matrixF"
    using r
    by (auto simp: transition_row_def bind_eq_Some_conv mat_times_col_def vec_add_def mat_vec_def
        split: if_splits)
  moreover have "length r = n_cols (xt s1)"
    using m1 by (auto simp: set_row_def split: if_splits)
  ultimately show "n_rows matrixF = n_cols (xt s)"
    using measure_step_xt[OF s1] by simp
qed

lemma forecast_body_succeeds:
  assumes "\<forall>j \<in> set (lagrows_at lags maxlag i). unat j < n_elem M"
    and "n_cols matrixF = length (lagrows_at lags maxlag i)"
    and "i < n_rows M" "n_rows matrixF = n_cols M"
    and "i - unat maxlag < n_rows ws" "n_cols ws = length (lagrows_at lags maxlag i)"
    and "i - unat maxlag < n_rows wexs" "i - unat maxlag < n_rows xtregs"
      "n_cols wexs = n_cols xtregs"
    and "i - unat maxlag < length y"
  shows "\<exists>s'. forecast_body matrixF ws wexs xtregs lags maxlag i \<lparr>xtnew = M, yfor = y\<rparr> = Some s' \<and>
              length (yfor s') = length y"
  using assms
  by (simp add: forecast_body_def mat_elem_def list_all_iff mat_times_col_def set_row_def
      mat_row_def row_times_col_def vec_set_def mat_vec_def row_of_def)

lemma ssforecaster_one_succeeds:
  assumes mx: "max_uvec lags = Some maxlag"
    and pos: "\<forall>l \<in> set lags. 0 < unat l"
    and xs: "n_rows xs = unat maxlag" "length lags \<le> n_cols xs"
    and sz: "(1 + unat maxlag) * n_cols xs < 2 ^ 32"
    and F: "n_cols matrixF = length lags" "n_rows matrixF = n_cols xs"
    and w: "0 < n_rows ws" "n_cols ws = length lags"
    and ex: "0 < n_rows wexs" "0 < n_rows xtregs" "n_cols wexs = n_cols xtregs"
  shows "\<exists>f. ssforecaster xs matrixF ws 1 lags wexs xtregs = Some f \<and> length f = 1"
proof -
  let ?m = "unat maxlag" and ?C = "n_cols xs"
  let ?hh = "1 + ?m"
  let ?init = "block xs 0 0 ?m ?C"
  let ?zeros = "filled ?hh ?C 0"
  let ?xa = "put_block ?zeros 0 0 ?init"
  let ?lags = "offset_lags ?hh maxlag lags"
  let ?L = "lagrows_at ?lags maxlag ?m"
  have mpos: "0 < ?m" using mx pos by (rule max_uvec_positive)
  have cpos: "0 < ?C" using mx xs(2) by (cases lags) auto
  have c32: "?C < 2 ^ 32"
  proof -
    have "?C \<le> ?hh * ?C" by simp
    then show ?thesis using sz by (rule le_less_trans)
  qed
  have szl: "?hh * length lags < 2 ^ 32"
  proof -
    have "?hh * length lags \<le> ?hh * ?C" using xs(2) by (rule mult_le_mono2)
    then show ?thesis using sz by (rule le_less_trans)
  qed
  have um: "unat (maxlag - 1) = ?m - 1"
    using mpos by (intro unat_minus_one) auto
  have uc: "unat (of_nat ?C - 1 :: uword) = ?C - 1"
    using cpos c32 by (intro unat_pred_index) simp_all
  have n1: "?m - 1 - unat (0 :: uword) + 1 = ?m" "?C - 1 - unat (0 :: uword) + 1 = ?C"
    using mpos cpos by simp_all
  have init: "submat xs 0 0 (maxlag - 1) (of_nat ?C - 1) = Some ?init"
    unfolding submat_def um uc n1 using mpos cpos xs(1) by simp
  have m0: "assign_submat ?zeros 0 0 (maxlag - 1) (of_nat ?C - 1) ?init = Some ?xa"
    unfolding assign_submat_def um uc n1 using mpos cpos by simp
  have m0d: "n_rows ?xa = ?hh" "n_cols ?xa = ?C" "n_elem ?xa = ?hh * ?C"
    by simp_all
  have idx: "unat j < ?hh * ?C" if "j \<in> set ?L" for j
  proof -
    from that obtain k where k: "k < length lags" "j = ?L ! k"
      by (auto simp: in_set_conv_nth)
    have "unat (?L ! k) = (?m - unat (lags ! k)) + k * ?hh"
      using szl by (intro lagrows_forward[OF mx _ _ _ k(1)]) simp_all
    moreover have "(?m - unat (lags ! k)) + k * ?hh < ?hh * ?C"
      using k(1) xs(2) by (intro entry_in_bounds) simp_all
    ultimately show ?thesis using k(2) by simp
  qed
  have "\<exists>s'. forecast_body matrixF ws wexs xtregs ?lags maxlag ?m \<lparr>xtnew = ?xa, yfor = replicate 1 0\<rparr>
               = Some s' \<and> length (yfor s') = length (replicate 1 (0 :: double))"
  proof (rule forecast_body_succeeds)
    show "\<forall>j \<in> set ?L. unat j < n_elem ?xa"
      unfolding m0d using idx by blast
    show "n_cols matrixF = length ?L" using F(1) by simp
    show "?m < n_rows ?xa" "n_rows matrixF = n_cols ?xa" using F(2) by simp_all
    show "?m - ?m < n_rows ws" "n_cols ws = length ?L" using w by simp_all
    show "?m - ?m < n_rows wexs" "?m - ?m < n_rows xtregs" "n_cols wexs = n_cols xtregs"
      using ex by simp_all
    show "?m - ?m < length (replicate 1 (0 :: double))" by simp
  qed
  then obtain s' where
    b: "forecast_body matrixF ws wexs xtregs ?lags maxlag ?m \<lparr>xtnew = ?xa, yfor = replicate 1 0\<rparr>
        = Some s'"
    and ls: "length (yfor s') = 1"
    by auto
  have "ssforecaster xs matrixF ws 1 lags wexs xtregs = Some (yfor s')"
    using mx init m0 b by (simp add: ssforecaster_def Let_def bind_for_each_Nil)
  then show ?thesis using ls by simp
qed

lemma errorer_body_one_succeeds:
  assumes mx: "max_uvec lags = Some maxlag"
    and pos: "\<forall>l \<in> set lags. 0 < unat l"
    and t: "t < length matyt"
    and X: "n_rows matrixxt = length matyt + unat maxlag" "length lags \<le> n_cols matrixxt"
      "n_elem matrixxt < 2 ^ 32"
    and F: "n_cols matrixF = length lags" "n_rows matrixF = n_cols matrixxt"
    and w: "t < n_rows matrixw" "n_cols matrixw = length lags"
    and ex: "t < n_rows wex" "t < n_rows xtreg" "n_cols wex = n_cols xtreg"
    and E: "n_rows E = length matyt" "n_cols E = 1"
  shows "\<exists>E'. errorer_body matrixxt matrixF matrixw matyt 1 lags maxlag wex xtreg
                 (t + unat maxlag) E = Some E'"
proof -
  let ?m = "unat maxlag" and ?R = "n_rows matrixxt" and ?C = "n_cols matrixxt"
  let ?i = "t + ?m"
  have mpos: "0 < ?m" using mx pos by (rule max_uvec_positive)
  have cpos: "0 < ?C" using mx X(2) by (cases lags) auto
  have r32: "?R < 2 ^ 32"
  proof -
    have "?R \<le> ?R * ?C" using cpos by simp
    then show ?thesis using X(3) unfolding n_elem_def by (rule le_less_trans)
  qed
  have hh: "min 1 (length matyt + ?m - ?i) = 1" using t by simp
  have tw: "of_nat ?i - maxlag = (of_nat t :: uword)"
    using of_nat_minus_maxlag[of maxlag ?i] by simp
  have lw: "(of_nat t + of_nat 1 - 1 :: uword) = of_nat t" by simp
  have zw: "(of_nat 1 - 1 :: uword) = 0" by simp
  have ut: "unat (of_nat t :: uword) = t"
    using t X(1) r32 by (intro unat_of_nat32) simp
  have ui: "unat (of_nat ?i - 1 :: uword) = ?i - 1"
    using mpos t X(1) r32 by (intro unat_pred_index) simp_all
  have le: "(of_nat t :: uword) \<le> of_nat ?i - 1"
    unfolding word_le_nat_alt ut ui using mpos by simp
  have n2: "?i - 1 - t + 1 = ?m" using mpos by simp
  let ?xs = "block matrixxt t 0 ?m ?C"
  let ?ws = "block matrixw t 0 1 (n_cols matrixw)"
  let ?wexs = "block wex t 0 1 (n_cols wex)"
  let ?xtregs = "block xtreg t 0 1 (n_cols xtreg)"
  have ys: "vec_rows matyt (of_nat t) (of_nat t) = Some (take 1 (drop t matyt))"
    unfolding vec_rows_def ut using t by simp
  have xs: "mat_rows matrixxt (of_nat t) (of_nat ?i - 1) = Some ?xs"
    unfolding mat_rows_def ut ui n2 using le t X(1) mpos by simp
  have ws: "mat_rows matrixw (of_nat t) (of_nat t) = Some ?ws"
    unfolding mat_rows_def ut using w(1) by simp
  have wexs: "mat_rows wex (of_nat t) (of_nat t) = Some ?wexs"
    unfolding mat_rows_def ut using ex(1) by simp
  have xtregs: "mat_rows xtreg (of_nat t) (of_nat t) = Some ?xtregs"
    unfolding mat_rows_def ut using ex(2) by simp
  have sz: "(1 + ?m) * n_cols ?xs < 2 ^ 32"
  proof -
    have "(1 + ?m) * ?C \<le> ?R * ?C" using t X(1) by (intro mult_le_mono1) simp
    then have "(1 + ?m) * ?C < 2 ^ 32" using X(3) unfolding n_elem_def by (rule le_less_trans)
    then show ?thesis by simp
  qed
  have "\<exists>f. ssforecaster ?xs matrixF ?ws 1 lags ?wexs ?xtregs = Some f \<and> length f = 1"
    using mx pos _ _ sz
  proof (rule ssforecaster_one_succeeds)
    show "n_rows ?xs = ?m" "length lags \<le> n_cols ?xs" using X(2) by simp_all
    show "n_cols matrixF = length lags" "n_rows matrixF = n_cols ?xs" using F by simp_all
    show "0 < n_rows ?ws" "n_cols ?ws = length lags" using w(2) by simp_all
    show "0 < n_rows ?wexs" "0 < n_rows ?xtregs" "n_cols ?wexs = n_cols ?xtregs"
      using ex(3) by simp_all
  qed
  then obtain f where
    f: "ssforecaster ?xs matrixF ?ws 1 lags ?wexs ?xtregs = Some f" and lf: "length f = 1"
    by blast
  let ?d = "map2 (-) (take 1 (drop t matyt)) f"
  have d: "vec_sub (take 1 (drop t matyt)) f = Some ?d"
    unfolding vec_sub_def using t lf by simp
  have ld: "length ?d = 1" using t lf by simp
  have a: "assign_submat E (of_nat t) 0 (of_nat t) 0 (row_mat ?d)
           = Some (put_block E t 0 (row_mat ?d))"
    unfolding assign_submat_def ut using t E ld by (simp add: row_mat_def)
  show ?thesis
    unfolding errorer_body_def Let_def hh tw lw zw ys xs ws wexs xtregs
    using f d a by simp
qed

lemma one_step_errorer_succeeds:
  assumes fit: "ssfitter matrixxt matrixF matrixw matrixv matyt matg lags wex xtreg = Some r"
    and mx: "max_uvec lags = Some maxlag"
    and pos: "\<forall>l \<in> set lags. 0 < unat l"
    and rows: "n_rows matrixxt = length matyt + unat maxlag"
    and cols: "length lags \<le> n_cols matrixxt"
    and sz: "n_elem matrixxt < 2 ^ 32"
  shows "\<exists>E. sserrorer (fit_matxt r) matrixF matrixw matyt 1 lags wex xtreg = Some E"
proof -
  let ?m = "unat maxlag" and ?R = "n_rows matrixxt"
  let ?L = "offset_lags ?R maxlag lags"
  let ?P = "\<lambda>E :: mat. n_rows E = length matyt \<and> n_cols E = 1"
  from fit obtain sn where
    sn: "ssfitter_loop matrixxt matrixF matrixw matrixv matyt matg lags wex xtreg ?R = Some sn"
    and rv: "fit_matxt r = xt sn"
    by (auto simp: ssfitter_def bind_eq_Some_conv)
  note d = ssfitter_loop_rows[OF sn]
  have X: "n_rows (fit_matxt r) = length matyt + ?m" "length lags \<le> n_cols (fit_matxt r)"
    "n_elem (fit_matxt r) < 2 ^ 32"
    using d rv rows cols sz by (simp_all add: n_elem_def)
  have "\<exists>E. for_each [?m..<length matyt + ?m]
              (errorer_body (fit_matxt r) matrixF matrixw matyt 1 lags maxlag wex xtreg)
              (filled (length matyt) 1 NA_REAL) = Some E"
  proof (rule for_each_succeeds[where P = ?P])
    show "?P (filled (length matyt) 1 NA_REAL)" by simp
  next
    fix i and E :: mat
    assume i: "i \<in> set [?m..<length matyt + ?m]" and E: "?P E"
    define t where "t = i - ?m"
    have t: "t < length matyt" "i = t + ?m" using i unfolding t_def by auto
    have ir: "?m \<le> i" "i < ?R" using i rows by simp_all
    from ssfitter_loop_step[OF mx ir sn] obtain s s' where
      s: "ssfitter_loop matrixxt matrixF matrixw matrixv matyt matg lags wex xtreg i = Some s"
      and b: "ssfitter_body matrixF matrixw matrixv matyt matg ?L maxlag wex xtreg i s = Some s'"
      by blast
    note sh = filter_step_shapes[OF b[unfolded ssfitter_body_def], folded t_def]
    have F: "n_cols matrixF = length lags" "n_rows matrixF = n_cols (fit_matxt r)"
      using sh(6,7) ssfitter_loop_rows[OF s] d rv by simp_all
    have w: "n_cols matrixw = length lags" using sh(2) by simp
    from errorer_body_one_succeeds[OF mx pos t(1) X F sh(1) w sh(3,4,5)] E
    obtain E' where
      E': "errorer_body (fit_matxt r) matrixF matrixw matyt 1 lags maxlag wex xtreg i E = Some E'"
      unfolding t(2) by blast
    then show "\<exists>b. errorer_body (fit_matxt r) matrixF matrixw matyt 1 lags maxlag wex xtreg i E
                 = Some b \<and> ?P b"
      using errorer_body_dims[OF E'] E by simp
  qed
  then show ?thesis using mx by (simp add: sserrorer_def)
qed

subsection \<open>The rows of the state history that the filter returns\<close>

lemma ssfitter_returned_rows:
  assumes fit: "ssfitter matrixxt matrixF matrixw matrixv matyt matg lags wex xtreg = Some r"
    and mx: "max_uvec lags = Some maxlag"
    and i: "unat maxlag \<le> i" "i < n_rows matrixxt"
    and pos: "\<forall>l \<in> set lags. 0 < unat l"
    and cols: "length lags \<le> n_cols matrixxt"
    and fin: "rows_finite matrixxt (unat maxlag)"
    and sz: "n_elem matrixxt < 2 ^ 32"
  shows "fit_yfit r ! (i - unat maxlag)
           = fitted_value matrixw wex xtreg (i - unat maxlag) (lagged_state (fit_matxt r) lags i)"
    and "fit_errors r ! (i - unat maxlag)
           = matyt ! (i - unat maxlag) - fit_yfit r ! (i - unat maxlag)"
    and "c < n_cols matrixxt \<Longrightarrow>
         mem (fit_matxt r) ! (i + c * n_rows matrixxt)
           = (if is_finite
                   (new_state_row matrixF matrixv matg (i - unat maxlag)
                      (lagged_state (fit_matxt r) lags i) (fit_errors r ! (i - unat maxlag)) ! c)
              then new_state_row matrixF matrixv matg (i - unat maxlag)
                     (lagged_state (fit_matxt r) lags i) (fit_errors r ! (i - unat maxlag)) ! c
              else mem (fit_matxt r) ! ((i - 1) + c * n_rows matrixxt))"
proof -
  let ?m = "unat maxlag" and ?R = "n_rows matrixxt" and ?C = "n_cols matrixxt"
  let ?t = "i - ?m"
  let ?L = "offset_lags ?R maxlag lags"
  let ?body = "ssfitter_body matrixF matrixw matrixv matyt matg ?L maxlag wex xtreg"
  let ?st = "\<lparr>xt = matrixxt, fitv = replicate (length matyt) 0, errv = replicate (length matyt) 0\<rparr>"
  have mpos: "0 < ?m" using mx pos by (rule max_uvec_positive)
  have ipos: "0 < i" using mpos i(1) by simp
  from fit obtain sn where
    sn: "ssfitter_loop matrixxt matrixF matrixw matrixv matyt matg lags wex xtreg ?R = Some sn"
    and rv: "fit_matxt r = xt sn" "fit_errors r = errv sn"
    by (auto simp: ssfitter_def bind_eq_Some_conv)
  from ssfitter_loop_step[OF mx i sn] obtain s s' where
    s: "ssfitter_loop matrixxt matrixF matrixw matrixv matyt matg lags wex xtreg i = Some s"
    and b: "?body i s = Some s'"
    and s': "ssfitter_loop matrixxt matrixF matrixw matrixv matyt matg lags wex xtreg (Suc i) = Some s'"
    and tl: "for_each [Suc i..<?R] ?body s' = Some sn"
    by blast
  have pre: "for_each [?m..<i] ?body ?st = Some s"
    using s mx by (simp add: ssfitter_loop_def)
  have st1: "n_rows (xt s) = ?R \<and> n_cols (xt s) = ?C \<and> rows_finite (xt s) i"
    using filter_loop_stable[OF pre] fin mpos i sz by simp
  then have ne: "n_elem (xt s) < 2 ^ 32" using sz by (simp add: n_elem_def)
  note bs = b[unfolded ssfitter_body_def]
  have iR: "i < n_rows (xt s)" using st1 i(2) by simp
  have inv: "rows_finite (xt s) i" using st1 by simp
  note f1 = filter_step_stable(1)[OF bs inv ipos iR ne]
  have f2: "mem (xt s') ! (q + c * ?R) = mem (xt s) ! (q + c * ?R)" if "q < i" "c < ?C" for q c
    using filter_step_stable(2)[OF bs inv ipos iR ne, of q c] that st1 by simp
  have d': "n_rows (xt s') = ?R" "n_cols (xt s') = ?C"
    using filter_step_frame(1,2)[OF bs] st1 by simp_all
  then have ne': "n_elem (xt s') < 2 ^ 32" using sz by (simp add: n_elem_def)
  have st2: "\<forall>q < Suc i. \<forall>c < ?C. mem (xt sn) ! (q + c * ?R) = mem (xt s') ! (q + c * ?R)"
    using filter_loop_stable[OF tl] f1 i(2) d' ne' by simp
  have szl: "?R * length lags < 2 ^ 32"
  proof -
    have "?R * length lags \<le> ?R * ?C" using cols by (rule mult_le_mono2)
    moreover have "?R * ?C < 2 ^ 32" using sz by (simp add: n_elem_def)
    ultimately show ?thesis by (rule le_less_trans)
  qed
  have lag: "lagged_state (xt sn) lags i = lagged_state (xt s) lags i"
  proof -
    have "mem (xt sn) ! ((i - unat (lags ! k)) + k * ?R)
          = mem (xt s) ! ((i - unat (lags ! k)) + k * ?R)" if k: "k < length lags" for k
    proof -
      have "0 < unat (lags ! k)" using pos k by simp
      then have q: "i - unat (lags ! k) < i" using ipos by simp
      have kc: "k < ?C" using k cols by simp
      have "mem (xt sn) ! ((i - unat (lags ! k)) + k * ?R)
            = mem (xt s') ! ((i - unat (lags ! k)) + k * ?R)"
        using st2 q kc by simp
      then show ?thesis using f2[OF q kc] by simp
    qed
    moreover have "n_rows (xt sn) = ?R" using ssfitter_loop_rows[OF sn] by simp
    ultimately show ?thesis using st1 by (simp add: lagged_state_def)
  qed
  let ?new = "new_state_row matrixF matrixv matg ?t (lagged_state (xt s) lags i) (fit_errors r ! ?t)"
  from ssfitter_round[OF fit mx i szl] s s' obtain m1 where
    fv: "fit_yfit r ! ?t = fitted_value matrixw wex xtreg ?t (lagged_state (xt s) lags i)"
    and ev: "fit_errors r ! ?t = matyt ! ?t - fit_yfit r ! ?t"
    and m1: "set_row (xt s) i ?new = Some m1"
    and sub: "subst_prev m1 = Some (xt s')"
    by auto
  show "fit_yfit r ! ?t = fitted_value matrixw wex xtreg ?t (lagged_state (fit_matxt r) lags i)"
    using fv lag rv by simp
  show "fit_errors r ! ?t = matyt ! ?t - fit_yfit r ! ?t"
    by (rule ev)
  show "mem (fit_matxt r) ! (i + c * ?R)
        = (if is_finite
                (new_state_row matrixF matrixv matg ?t (lagged_state (fit_matxt r) lags i)
                   (fit_errors r ! ?t) ! c)
           then new_state_row matrixF matrixv matg ?t (lagged_state (fit_matxt r) lags i)
                  (fit_errors r ! ?t) ! c
           else mem (fit_matxt r) ! ((i - 1) + c * ?R))" if c: "c < ?C"
  proof -
    have m1v: "m1 = put_row (xt s) i ?new" and ln: "length ?new = ?C"
      using m1 st1 by (auto simp: set_row_def split: if_splits)
    have len: "length (mem m1) = n_elem m1" and nm: "n_elem m1 = n_elem (xt s)"
      unfolding m1v by simp_all
    have p: "i + c * ?R < n_elem (xt s)"
      using entry_in_bounds[OF i(2) c] st1 by (simp add: n_elem_def)
    obtain j where j: "i = Suc j" using ipos by (cases i) auto
    have up: "unat (of_nat (i + c * ?R) + (- 1) :: uword) = j + c * ?R"
      using unat_prev_index[OF ne p] j by simp
    have e0: "mem (xt s') ! (i + c * ?R)
              = (if is_finite (mem m1 ! (i + c * ?R)) then mem m1 ! (i + c * ?R)
                 else mem m1 ! (j + c * ?R))"
      using subst_nonfinite_nth[OF sub[unfolded subst_prev_def] len _ p[folded nm]] ne nm up
      by simp
    have e1: "mem m1 ! (i + c * ?R) = ?new ! c"
      unfolding m1v using put_row_entry[of i "xt s" c i ?new] iR c st1 by simp
    have e2: "mem m1 ! (j + c * ?R) = mem (xt s) ! (j + c * ?R)"
      unfolding m1v using put_row_entry[of j "xt s" c i ?new] iR c st1 j by simp
    have e3: "mem (xt sn) ! (i + c * ?R) = mem (xt s') ! (i + c * ?R)"
      using st2 c by simp
    have e4: "mem (xt sn) ! (j + c * ?R) = mem (xt s) ! (j + c * ?R)"
    proof -
      have "mem (xt sn) ! (j + c * ?R) = mem (xt s') ! (j + c * ?R)"
        using st2 c j by simp
      then show ?thesis using f2[of j c] c j by simp
    qed
    have "i - 1 = j" using j by simp
    then show ?thesis
      using e0 e1 e2 e3 e4 lag rv(1) by simp
  qed
qed

lemma scalar_fit_value:
  "scalar_fit (replicate 6 0) (col_mat (replicate 5 0))
   = Some \<lparr>fit_matxt = col_mat [Fin 0, Fin (3 / 10), Fin (81 / 100), Fin (1467 / 1000),
                                 Fin (22269 / 10000), Fin (305883 / 100000)],
           fit_yfit = [Fin 0, Fin (3 / 10), Fin (81 / 100), Fin (1467 / 1000), Fin (22269 / 10000)],
           fit_errors = [Fin 1, Fin (17 / 10), Fin (219 / 100), Fin (2533 / 1000),
                         Fin (27731 / 10000)],
           fit_xtreg = col_mat (replicate 5 0)\<rparr>"
  by code_simp

lemma scalar_state_row:
  "new_state_row (col_mat [Fin 1]) (col_mat (replicate 5 (Fin 1))) [Fin (3 / 10)] 2
     (lagged_state
        (col_mat [Fin 0, Fin (3 / 10), Fin (81 / 100), Fin (1467 / 1000), Fin (22269 / 10000),
                  Fin (305883 / 100000)]) [1] 3)
     (Fin (219 / 100))
   = [Fin (1467 / 1000)]"
  by code_simp

subsection \<open>The backward lags of the backcast initializer\<close>







subsection \<open>The missing value in a column that has been filled\<close>



section \<open>The claims\<close>

text \<open>
  C2.  The scalar model started from the state 0 gives the fitted values
  0, 0.3, 0.81, 1.467, 2.2269 and the residuals 1, 1.7, 2.19, 2.533, 2.7731: every fitted
  value is the state before it, and the state moves by 0.3 times the residual.
\<close>

theorem scalar_fit_values:
  "map_option fit_yfit (scalar_fit (replicate 6 0) (col_mat (replicate 5 0))) =
     Some [Fin 0, Fin (3 / 10), Fin (81 / 100), Fin (1467 / 1000), Fin (22269 / 10000)] \<and>
   map_option fit_errors (scalar_fit (replicate 6 0) (col_mat (replicate 5 0))) =
     Some [Fin 1, Fin (17 / 10), Fin (219 / 100), Fin (2533 / 1000), Fin (27731 / 10000)]"
  by code_simp

text \<open>
  The values 0, 1, 1.7, 2.59, 3.613 and 1, 1, 1.3, 1.41, 1.387 of the scenario are not
  the ones the filter returns.
\<close>

theorem scalar_fit_not_illustrative_values:
  "\<not> (map_option fit_yfit (scalar_fit (replicate 6 0) (col_mat (replicate 5 0))) =
        Some [Fin 0, Fin 1, Fin (17 / 10), Fin (259 / 100), Fin (3613 / 1000)] \<and>
      map_option fit_errors (scalar_fit (replicate 6 0) (col_mat (replicate 5 0))) =
        Some [Fin 1, Fin 1, Fin (13 / 10), Fin (141 / 100), Fin (1387 / 1000)])"
  by code_simp

text \<open>
  C7.  A state history whose first element is not finite: the substitution reads the
  position before the first one, and the filter ends with Armadillo's exception instead
  of a result.
\<close>

theorem ssfitter_nonfinite_first_state_fails:
  "scalar_fit (NaN # replicate 5 0) (col_mat (replicate 5 0)) = None"
  unfolding scalar_fit_def
  by (rule ssfitter_first_nonfinite[where maxlag = 1]) (simp_all add: col_mat_def n_elem_def)

text \<open>
  C9.  The matrix \<open>xtreg\<close> in the result of the filter and of the backcast initializer
  is the argument \<open>xtreg\<close>.
\<close>

theorem xtreg_returned_unchanged:
  "(ssfitter matrixxt matrixF matrixw matrixv matyt matg lags wex xtreg = Some r \<longrightarrow>
      fit_xtreg r = xtreg) \<and>
   (ssfitterbackcast uninit matrixxt matrixF matrixw matrixv matyt matg lags wex xtreg = Some r' \<longrightarrow>
      fit_xtreg r' = xtreg)"
  by (auto simp: ssfitter_def ssfitterbackcast_def bind_eq_Some_conv)

theorem xtreg_returned_unchanged_witness:
  "scalar_fit (replicate 6 0) (col_mat (replicate 5 (Fin 7))) \<noteq> None \<and>
   tiny_backcast (col_mat [Fin 7]) \<noteq> None \<and>
   fit_xtreg (the (scalar_fit (replicate 6 0) (col_mat (replicate 5 (Fin 7))))) =
     col_mat (replicate 5 (Fin 7)) \<and>
   fit_xtreg (the (tiny_backcast (col_mat [Fin 7]))) = col_mat [Fin 7]"
proof -
  have a: "scalar_fit (replicate 6 0) (col_mat (replicate 5 (Fin 7))) \<noteq> None"
    by code_simp
  have b: "tiny_backcast (col_mat [Fin 7]) \<noteq> None"
    by code_simp
  from a obtain r where r: "scalar_fit (replicate 6 0) (col_mat (replicate 5 (Fin 7))) = Some r"
    by auto
  from b obtain r' where
    r': "tiny_backcast (col_mat [Fin 7]) = Some r'"
    by auto
  show ?thesis
    using xtreg_returned_unchanged[where r = r and r' = r'] r r'
    unfolding scalar_fit_def tiny_backcast_def by auto
qed






text \<open>
  C1.  When the filter returns, then at every round \<open>i\<close> of its loop, with
  \<open>t = i - maxlag\<close> and the state history \<open>xt s\<close> as it is when the round begins: the
  fitted value of \<open>t\<close> is the product of row \<open>t\<close> of the measurement matrix with the lagged
  state (of every component \<open>k\<close> the value at row \<open>i - lag_k\<close>) plus the product of the rows
  \<open>t\<close> of \<open>wex\<close> and \<open>xtreg\<close>; the residual is the observation minus the fitted value; the
  row \<open>i\<close> written is the transition matrix times the lagged state plus the persistence
  divided by row \<open>t\<close> of the scale matrix, times the residual; the round ends with the
  substitution of the non-finite elements.  What the filter returns is the state of the loop
  after its last round.  When the lags are positive and the rows before the sample are
  finite, the rounds after round \<open>i\<close> leave the rows up to \<open>i\<close> as they are, so that the
  same holds of the state history returned: its lagged state gives the fitted value, and
  every element of its row \<open>i\<close> is the element of the new state row computed from its lagged
  state, or, where that one is not finite, the element of its row \<open>i - 1\<close>.
\<close>

theorem ssfitter_recurrence:
  assumes "ssfitter matrixxt matrixF matrixw matrixv matyt matg lags wex xtreg = Some r"
    and "max_uvec lags = Some maxlag" "unat maxlag \<le> i" "i < n_rows matrixxt"
    and "n_rows matrixxt * length lags < 2 ^ 32"
  shows "\<exists>s s' m1 sn.
           ssfitter_loop matrixxt matrixF matrixw matrixv matyt matg lags wex xtreg i = Some s \<and>
           ssfitter_loop matrixxt matrixF matrixw matrixv matyt matg lags wex xtreg (Suc i) = Some s' \<and>
           fit_yfit r ! (i - unat maxlag)
             = fitted_value matrixw wex xtreg (i - unat maxlag) (lagged_state (xt s) lags i) \<and>
           fit_errors r ! (i - unat maxlag)
             = matyt ! (i - unat maxlag) - fit_yfit r ! (i - unat maxlag) \<and>
           set_row (xt s) i
             (new_state_row matrixF matrixv matg (i - unat maxlag) (lagged_state (xt s) lags i)
                (fit_errors r ! (i - unat maxlag))) = Some m1 \<and>
           row_of m1 i
             = new_state_row matrixF matrixv matg (i - unat maxlag) (lagged_state (xt s) lags i)
                (fit_errors r ! (i - unat maxlag)) \<and>
           subst_prev m1 = Some (xt s') \<and>
           ssfitter_loop matrixxt matrixF matrixw matrixv matyt matg lags wex xtreg
             (n_rows matrixxt) = Some sn \<and>
           r = \<lparr>fit_matxt = xt sn, fit_yfit = fitv sn, fit_errors = errv sn, fit_xtreg = xtreg\<rparr> \<and>
           ((\<forall>l \<in> set lags. 0 < unat l) \<and> length lags \<le> n_cols matrixxt \<and>
            rows_finite matrixxt (unat maxlag) \<and> n_elem matrixxt < 2 ^ 32 \<longrightarrow>
              fit_yfit r ! (i - unat maxlag)
                = fitted_value matrixw wex xtreg (i - unat maxlag)
                    (lagged_state (fit_matxt r) lags i) \<and>
              (\<forall>c < n_cols matrixxt.
                 mem (fit_matxt r) ! (i + c * n_rows matrixxt)
                   = (if is_finite
                           (new_state_row matrixF matrixv matg (i - unat maxlag)
                              (lagged_state (fit_matxt r) lags i)
                              (fit_errors r ! (i - unat maxlag)) ! c)
                      then new_state_row matrixF matrixv matg (i - unat maxlag)
                             (lagged_state (fit_matxt r) lags i)
                             (fit_errors r ! (i - unat maxlag)) ! c
                      else mem (fit_matxt r) ! ((i - 1) + c * n_rows matrixxt))))"
proof -
  from assms(1) obtain sn where
    sn: "ssfitter_loop matrixxt matrixF matrixw matrixv matyt matg lags wex xtreg
           (n_rows matrixxt) = Some sn"
    and r: "r = \<lparr>fit_matxt = xt sn, fit_yfit = fitv sn, fit_errors = errv sn, fit_xtreg = xtreg\<rparr>"
    by (auto simp: ssfitter_def bind_eq_Some_conv)
  note ret = ssfitter_returned_rows[OF assms(1,2,3,4)]
  have v: "(\<forall>l \<in> set lags. 0 < unat l) \<and> length lags \<le> n_cols matrixxt \<and>
           rows_finite matrixxt (unat maxlag) \<and> n_elem matrixxt < 2 ^ 32 \<longrightarrow>
             fit_yfit r ! (i - unat maxlag)
               = fitted_value matrixw wex xtreg (i - unat maxlag)
                   (lagged_state (fit_matxt r) lags i) \<and>
             (\<forall>c < n_cols matrixxt.
                mem (fit_matxt r) ! (i + c * n_rows matrixxt)
                  = (if is_finite
                          (new_state_row matrixF matrixv matg (i - unat maxlag)
                             (lagged_state (fit_matxt r) lags i)
                             (fit_errors r ! (i - unat maxlag)) ! c)
                     then new_state_row matrixF matrixv matg (i - unat maxlag)
                            (lagged_state (fit_matxt r) lags i)
                            (fit_errors r ! (i - unat maxlag)) ! c
                     else mem (fit_matxt r) ! ((i - 1) + c * n_rows matrixxt)))"
    using ret(1,3) by blast
  from ssfitter_round[OF assms] obtain s s' m1 where
    "ssfitter_loop matrixxt matrixF matrixw matrixv matyt matg lags wex xtreg i = Some s"
    "ssfitter_loop matrixxt matrixF matrixw matrixv matyt matg lags wex xtreg (Suc i) = Some s'"
    "fit_yfit r ! (i - unat maxlag)
       = fitted_value matrixw wex xtreg (i - unat maxlag) (lagged_state (xt s) lags i)"
    "fit_errors r ! (i - unat maxlag)
       = matyt ! (i - unat maxlag) - fit_yfit r ! (i - unat maxlag)"
    "set_row (xt s) i
       (new_state_row matrixF matrixv matg (i - unat maxlag) (lagged_state (xt s) lags i)
          (fit_errors r ! (i - unat maxlag))) = Some m1"
    "row_of m1 i
       = new_state_row matrixF matrixv matg (i - unat maxlag) (lagged_state (xt s) lags i)
          (fit_errors r ! (i - unat maxlag))"
    "subst_prev m1 = Some (xt s')"
    by blast
  then show ?thesis using sn r v by (intro exI[of _ s] exI[of _ s'] exI[of _ m1] exI[of _ sn]) simp
qed

theorem ssfitter_recurrence_witness:
  "max_uvec [1 :: uword] = Some 1 \<and> unat (1 :: uword) \<le> 3 \<and>
   3 < n_rows (col_mat (replicate 6 0)) \<and>
   n_rows (col_mat (replicate 6 0)) * length [1 :: uword] < 2 ^ 32 \<and>
   0 < unat (1 :: uword) \<and> length [1 :: uword] \<le> n_cols (col_mat (replicate 6 0)) \<and>
   rows_finite (col_mat (replicate 6 0)) (unat (1 :: uword)) \<and>
   n_elem (col_mat (replicate 6 0)) < 2 ^ 32 \<and>
   scalar_fit (replicate 6 0) (col_mat (replicate 5 0)) \<noteq> None \<and>
   fit_yfit (the (scalar_fit (replicate 6 0) (col_mat (replicate 5 0)))) ! 2
     = fitted_value (col_mat (replicate 5 (Fin 1))) (col_mat (replicate 5 0))
         (col_mat (replicate 5 0)) 2
         (lagged_state (fit_matxt (the (scalar_fit (replicate 6 0) (col_mat (replicate 5 0)))))
            [1] 3) \<and>
   mem (fit_matxt (the (scalar_fit (replicate 6 0) (col_mat (replicate 5 0))))) ! 3
     = Fin (1467 / 1000)"
proof -
  let ?r = "\<lparr>fit_matxt = col_mat [Fin 0, Fin (3 / 10), Fin (81 / 100), Fin (1467 / 1000),
                                    Fin (22269 / 10000), Fin (305883 / 100000)],
             fit_yfit = [Fin 0, Fin (3 / 10), Fin (81 / 100), Fin (1467 / 1000),
                         Fin (22269 / 10000)],
             fit_errors = [Fin 1, Fin (17 / 10), Fin (219 / 100), Fin (2533 / 1000),
                           Fin (27731 / 10000)],
             fit_xtreg = col_mat (replicate 5 0)\<rparr>"
  have r: "scalar_fit (replicate 6 0) (col_mat (replicate 5 0)) = Some ?r"
    by (rule scalar_fit_value)
  have h: "max_uvec [1 :: uword] = Some 1" "unat (1 :: uword) \<le> 3"
    "3 < n_rows (col_mat (replicate 6 0))"
    "n_rows (col_mat (replicate 6 0)) * length [1 :: uword] < 2 ^ 32"
    by (simp_all add: col_mat_def)
  have v: "(\<forall>l \<in> set [1 :: uword]. 0 < unat l) \<and>
           length [1 :: uword] \<le> n_cols (col_mat (replicate 6 0)) \<and>
           rows_finite (col_mat (replicate 6 0)) (unat (1 :: uword)) \<and>
           n_elem (col_mat (replicate 6 0)) < 2 ^ 32"
    by (simp add: col_mat_def n_elem_def rows_finite_iff zero_double_def)
  from ssfitter_recurrence[OF r[unfolded scalar_fit_def] h] v
  have a: "fit_yfit ?r ! (3 - unat (1 :: uword))
           = fitted_value (col_mat (replicate 5 (Fin 1))) (col_mat (replicate 5 0))
               (col_mat (replicate 5 0)) (3 - unat (1 :: uword))
               (lagged_state (fit_matxt ?r) [1] 3)"
    and b: "\<forall>c < n_cols (col_mat (replicate 6 0)).
        mem (fit_matxt ?r) ! (3 + c * n_rows (col_mat (replicate 6 0)))
          = (if is_finite
                  (new_state_row (col_mat [Fin 1]) (col_mat (replicate 5 (Fin 1))) [Fin (3 / 10)]
                     (3 - unat (1 :: uword)) (lagged_state (fit_matxt ?r) [1] 3)
                     (fit_errors ?r ! (3 - unat (1 :: uword))) ! c)
             then new_state_row (col_mat [Fin 1]) (col_mat (replicate 5 (Fin 1))) [Fin (3 / 10)]
                    (3 - unat (1 :: uword)) (lagged_state (fit_matxt ?r) [1] 3)
                    (fit_errors ?r ! (3 - unat (1 :: uword))) ! c
             else mem (fit_matxt ?r) ! ((3 - 1) + c * n_rows (col_mat (replicate 6 0))))"
    by blast+
  have t: "3 - unat (1 :: uword) = 2" by simp
  have e: "[Fin 1, Fin (17 / 10), Fin (219 / 100), Fin (2533 / 1000), Fin (27731 / 10000)] ! 2
           = Fin (219 / 100)" by simp
  have "0 < n_cols (col_mat (replicate 6 0))" by (simp add: col_mat_def)
  then have "mem (fit_matxt ?r) ! (3 + 0 * n_rows (col_mat (replicate 6 0)))
        = (if is_finite
                (new_state_row (col_mat [Fin 1]) (col_mat (replicate 5 (Fin 1))) [Fin (3 / 10)]
                   (3 - unat (1 :: uword)) (lagged_state (fit_matxt ?r) [1] 3)
                   (fit_errors ?r ! (3 - unat (1 :: uword))) ! 0)
           then new_state_row (col_mat [Fin 1]) (col_mat (replicate 5 (Fin 1))) [Fin (3 / 10)]
                  (3 - unat (1 :: uword)) (lagged_state (fit_matxt ?r) [1] 3)
                  (fit_errors ?r ! (3 - unat (1 :: uword))) ! 0
           else mem (fit_matxt ?r) ! ((3 - 1) + 0 * n_rows (col_mat (replicate 6 0))))"
    using b by blast
  then have c: "mem (fit_matxt ?r) ! 3 = Fin (1467 / 1000)"
    unfolding t fitting.simps e scalar_state_row by simp
  have "0 < unat (1 :: uword)" by simp
  then show ?thesis
    using h v a[unfolded t] c unfolding r option.sel by simp
qed

text \<open>
  C3.  The still model keeps the state \<open>(1, 2)\<close> in every row of the refined state history
  of four rows.  The last \<open>set_size\<close> reads the first six elements of its column-major
  memory as a matrix of three rows: the row count is the original one, but row 0 of the
  state history returned is \<open>(1, 1)\<close>, the second component being an element of the first
  column of the refined history.
\<close>

theorem still_backcast_returns_shifted_rows:
  "map_option (\<lambda>s. (n_rows (xt s), row_of (xt s) 0)) still_cycles = Some (4, [Fin 1, Fin 2]) \<and>
   map_option (\<lambda>r. (n_rows (fit_matxt r), row_of (fit_matxt r) 0)) (still_backcast uninit)
     = Some (3, [Fin 1, Fin 1])"
proof -
  have "still_backcast uninit
        = still_cycles \<bind> (\<lambda>s. Some \<lparr>fit_matxt = set_size uninit (xt s) (n_rows still_xt) (n_cols (xt s)),
             fit_yfit = fitv s, fit_errors = errv s, fit_xtreg = col_mat [0, 0]\<rparr>)"
    by (simp add: still_backcast_def ssfitterbackcast_def still_cycles_def)
  moreover have "[0..<2] = [0, 1 :: nat]"
    by code_simp
  ultimately show ?thesis
    by (simp add: still_cycles_value still_refined_def still_xt_def set_size_def n_elem_def
        row_of_def)
qed

text \<open>
  C4.  For \<open>TLV\<close> the cost is the sum over the horizons \<open>h = 1, \<dots>, hor\<close> of the
  logarithm of the mean of the squares of the first \<open>obs - h + 1\<close> elements of column \<open>h\<close>
  of the matrix of rolling-origin errors (column \<open>i = h - 1\<close> counted from 0 and its first
  \<open>obs - i\<close> rows, which are the rows the error evaluator has filled); for \<open>TV\<close> it is
  the same sum without the logarithm.
\<close>

theorem trace_losses:
  assumes "(if backcasting
            then ssfitterbackcast uninit matrixxt matrixF matrixw matrixv matyt matg lags wex xtreg
            else ssfitter matrixxt matrixF matrixw matrixv matyt matg lags wex xtreg) = Some ft"
    and "sserrorer (fit_matxt ft) matrixF matrixw matyt hor lags wex (fit_xtreg ft) = Some E"
    and "hor \<le> length matyt" "length matyt < 2 ^ 32"
  shows "ssoptimizer gv uninit matrixxt matrixF matrixw matrixv matyt matg hor lags ''TLV''
           normalize_v backcasting wex xtreg
           = Some (trace_sum dlog E hor (\<lambda>h. length matyt - h + 1)) \<and>
         ssoptimizer gv uninit matrixxt matrixF matrixw matrixv matyt matg hor lags ''TV''
           normalize_v backcasting wex xtreg
           = Some (trace_sum (\<lambda>m. m) E hor (\<lambda>h. length matyt - h + 1))"
  using ssoptimizer_trace_value[OF assms] by simp

theorem trace_losses_witness:
  "short_fit \<noteq> None \<and>
   short_errorer (fit_matxt (the short_fit)) 2 = Some short_errors \<and>
   2 \<le> length short_y \<and> length short_y < 2 ^ 32 \<and>
   short_cost ''TLV'' = Some (trace_sum dlog short_errors 2 (\<lambda>h. length short_y - h + 1)) \<and>
   short_cost ''TV'' = Some (trace_sum (\<lambda>m. m) short_errors 2 (\<lambda>h. length short_y - h + 1))"
proof -
  let ?ft = "\<lparr>fit_matxt = short_states, fit_yfit = [Fin 0, Fin (3 / 10), Fin (81 / 100)],
               fit_errors = [Fin 1, Fin (17 / 10), Fin (219 / 100)],
               fit_xtreg = col_mat [0, 0, 0]\<rparr>"
  have f: "(if False
            then ssfitterbackcast (\<lambda>j. NaN) (col_mat [0, 0, 0, 0]) (col_mat [Fin 1])
                   (col_mat [Fin 1, Fin 1, Fin 1]) (col_mat [Fin 1, Fin 1, Fin 1])
                   short_y [Fin (3 / 10)] [1] (col_mat [0, 0, 0]) (col_mat [0, 0, 0])
            else ssfitter (col_mat [0, 0, 0, 0]) (col_mat [Fin 1])
                   (col_mat [Fin 1, Fin 1, Fin 1]) (col_mat [Fin 1, Fin 1, Fin 1])
                   short_y [Fin (3 / 10)] [1] (col_mat [0, 0, 0]) (col_mat [0, 0, 0]))
        = Some ?ft"
    using short_fit_value by (simp add: short_fit_def)
  have e: "sserrorer (fit_matxt ?ft) (col_mat [Fin 1]) (col_mat [Fin 1, Fin 1, Fin 1])
             short_y 2 [1] (col_mat [0, 0, 0]) (fit_xtreg ?ft) = Some short_errors"
    using short_errorer_value by (simp add: short_errorer_def)
  have h: "2 \<le> length short_y" "length short_y < 2 ^ 32"
    by (simp_all add: short_y_length)
  have g: "short_fit \<noteq> None" "short_errorer (fit_matxt (the short_fit)) 2 = Some short_errors"
    using short_errorer_value by (simp_all add: short_fit_value)
  from trace_losses[OF f e h, of "\<lambda>E n h. None" "Fin 1"] g h
  show ?thesis unfolding short_cost_def by blast
qed

text \<open>
  On the series 1, 2, 3 with the horizon 2 neither cost is the sum over the first
  \<open>obs - h\<close> rows of column \<open>h\<close>.
\<close>

theorem trace_loss_not_first_obs_minus_h_rows:
  "map_option fit_matxt short_fit = Some short_states \<and>
   short_errorer short_states 2 = Some short_errors \<and>
   short_cost ''TLV'' \<noteq> Some (trace_sum dlog short_errors 2 (\<lambda>h. 3 - h)) \<and>
   short_cost ''TV'' \<noteq> Some (trace_sum (\<lambda>m. m) short_errors 2 (\<lambda>h. 3 - h))"
proof -
  have l1: "ln (389 / 200 :: real) < ln (86861 / 30000)" by simp
  have l2: "ln (4 :: real) < ln (1129 / 200)" by simp
  have ne: "ln (86861 / 30000 :: real) + ln (1129 / 200) \<noteq> ln (389 / 200) + ln 4"
    using l1 l2 by linarith
  have tlv: "trace_sum dlog short_errors 2 (\<lambda>h. 3 - h + 1)
             \<noteq> trace_sum dlog short_errors 2 (\<lambda>h. 3 - h)"
  proof -
    have "0 + dlog (Fin (86861 / 30000)) + dlog (Fin (1129 / 200))
          = Fin (ln (86861 / 30000) + ln (1129 / 200))"
      by (rule log_sum_small) simp_all
    moreover have "0 + dlog (Fin (389 / 200)) + dlog (Fin 4) = Fin (ln (389 / 200) + ln 4)"
      by (rule log_sum_small) simp_all
    ultimately show ?thesis unfolding short_trace_sums using ne by simp
  qed
  have tv: "trace_sum (\<lambda>m. m) short_errors 2 (\<lambda>h. 3 - h + 1)
            \<noteq> trace_sum (\<lambda>m. m) short_errors 2 (\<lambda>h. 3 - h)"
  proof -
    have "0 + Fin (86861 / 30000) + Fin (1129 / 200) = Fin (86861 / 30000 + 1129 / 200)"
      by (rule fin_sum_small) simp_all
    moreover have "0 + Fin (389 / 200) + Fin 4 = Fin (389 / 200 + 4)"
      by (rule fin_sum_small) simp_all
    ultimately show ?thesis unfolding short_trace_sums by simp
  qed
  have a: "map_option fit_matxt short_fit = Some short_states"
    by (simp add: short_fit_value)
  show ?thesis
    unfolding short_cost_value using a short_errorer_value tlv tv by blast
qed



text \<open>
  C8.  On the state history that the filter has returned, with the matrices, the series, the
  lags and the exogenous matrices of the filter, the error evaluator with the horizon 1
  returns a matrix of one column, and the column is the vector of residuals of the filter.
  The input is a valid one: every lag is positive, the state history has \<open>maxlag\<close> rows
  before the sample and one row for every observation, one column at least for every lag
  and fewer than \<open>2 ^ 32\<close> elements, and the rows before the sample are finite.  The two are
  equal, not only near: finite values are added and multiplied without rounding here.
\<close>

theorem one_step_errors_are_residuals:
  assumes "ssfitter matrixxt matrixF matrixw matrixv matyt matg lags wex xtreg = Some r"
    and "max_uvec lags = Some maxlag"
    and "\<forall>l \<in> set lags. 0 < unat l"
    and "n_rows matrixxt = length matyt + unat maxlag"
    and "length lags \<le> n_cols matrixxt"
    and "rows_finite matrixxt (unat maxlag)"
    and "n_elem matrixxt < 2 ^ 32"
  shows "\<exists>E. sserrorer (fit_matxt r) matrixF matrixw matyt 1 lags wex xtreg = Some E \<and>
              n_rows E = length matyt \<and> n_cols E = 1 \<and> mem E = fit_errors r"
proof -
  from one_step_errorer_succeeds[OF assms(1,2,3,4,5,7)] obtain E where
    E: "sserrorer (fit_matxt r) matrixF matrixw matyt 1 lags wex xtreg = Some E"
    by blast
  have "mem E = fit_errors r"
  proof (rule nth_equalityI)
    show "length (mem E) = length (fit_errors r)"
      using sserrorer_length[OF E] ssfitter_lengths[OF assms(1)] by simp
  next
    fix t assume "t < length (mem E)"
    then have "t < length matyt" using sserrorer_length[OF E] by simp
    then show "mem E ! t = fit_errors r ! t"
      by (rule one_step_error_entry[OF assms(1) E assms(2-)])
  qed
  then show ?thesis using E sserrorer_dims[OF E] by simp
qed

theorem one_step_errors_are_residuals_witness:
  "short_fit = Some \<lparr>fit_matxt = short_states, fit_yfit = [Fin 0, Fin (3 / 10), Fin (81 / 100)],
               fit_errors = [Fin 1, Fin (17 / 10), Fin (219 / 100)],
               fit_xtreg = col_mat [0, 0, 0]\<rparr> \<and>
   max_uvec [1 :: uword] = Some 1 \<and> 0 < unat (1 :: uword) \<and>
   n_rows (col_mat [0, 0, 0, 0]) = length short_y + unat (1 :: uword) \<and>
   length [1 :: uword] \<le> n_cols (col_mat [0, 0, 0, 0]) \<and>
   rows_finite (col_mat [0, 0, 0, 0]) (unat (1 :: uword)) \<and>
   n_elem (col_mat [0, 0, 0, 0]) < 2 ^ 32 \<and>
   (\<exists>E. short_errorer short_states 1 = Some E \<and> n_rows E = length short_y \<and> n_cols E = 1 \<and>
         mem E = [Fin 1, Fin (17 / 10), Fin (219 / 100)])"
proof -
  let ?ft = "\<lparr>fit_matxt = short_states, fit_yfit = [Fin 0, Fin (3 / 10), Fin (81 / 100)],
               fit_errors = [Fin 1, Fin (17 / 10), Fin (219 / 100)],
               fit_xtreg = col_mat [0, 0, 0]\<rparr>"
  have f: "ssfitter (col_mat [0, 0, 0, 0]) (col_mat [Fin 1]) (col_mat [Fin 1, Fin 1, Fin 1])
             (col_mat [Fin 1, Fin 1, Fin 1]) short_y [Fin (3 / 10)] [1]
             (col_mat [0, 0, 0]) (col_mat [0, 0, 0]) = Some ?ft"
    using short_fit_value by (simp add: short_fit_def)
  have h: "max_uvec [1 :: uword] = Some 1" "\<forall>l \<in> set [1 :: uword]. 0 < unat l"
    "n_rows (col_mat [0, 0, 0, 0]) = length short_y + unat (1 :: uword)"
    "length [1 :: uword] \<le> n_cols (col_mat [0, 0, 0, 0])"
    by (simp_all add: col_mat_def short_y_length)
  have g: "rows_finite (col_mat [0, 0, 0, 0]) (unat (1 :: uword))"
    by code_simp
  have n: "n_elem (col_mat [0, 0, 0, 0]) < 2 ^ 32"
    by (simp add: col_mat_def n_elem_def)
  have "\<exists>E. short_errorer (fit_matxt ?ft) 1 = Some E \<and> n_rows E = length short_y \<and>
            n_cols E = 1 \<and> mem E = fit_errors ?ft"
    unfolding short_errorer_def by (rule one_step_errors_are_residuals[OF f h g n])
  then have "\<exists>E. short_errorer short_states 1 = Some E \<and> n_rows E = length short_y \<and>
                 n_cols E = 1 \<and> mem E = [Fin 1, Fin (17 / 10), Fin (219 / 100)]"
    by simp
  moreover have "0 < unat (1 :: uword)" by simp
  ultimately show ?thesis using short_fit_value h(1,3,4) g n by blast
qed

end
